theory Spec2Isabelle
  imports Complex_Main
begin

section \<open>The WTSS plugin controller: service storage and remote queries\<close>

text \<open>
  A shallow embedding of \<^verbatim>\<open>wtss_plugin/controller/wtss_qgis_controller.py\<close>.
  The class \<^verbatim>\<open>Services\<close> keeps a list of service endpoints in one JSON file and
  asks a remote WTSS server for coverages and time series through the client library
  \<^verbatim>\<open>wtss\<close> and through \<^verbatim>\<open>requests\<close>. Both libraries, and \<^verbatim>\<open>pyproj\<close>,
  are third-party code: their answers are parameters of the model.
\<close>

subsection \<open>Exceptions\<close>

text \<open>
  The Python exceptions that the controller raises itself or names in an
  \<^verbatim>\<open>except\<close> clause, and two more for what the libraries may raise.
\<close>

datatype exn =
    FileNotFoundError
  | FileExistsError
  | IndexError
  | AttributeError
  | ValueError
  | KeyError
  | ConnectionError
  | LibraryError

subsection \<open>The stored services\<close>

text \<open>
  \<^verbatim>\<open>class Service\<close> has the fields \<^verbatim>\<open>id\<close>, \<^verbatim>\<open>name\<close> and \<^verbatim>\<open>host\<close>;
  \<^verbatim>\<open>class ServiceList\<close> wraps the list that the JSON file holds under the key
  \<^verbatim>\<open>services\<close>. The field \<^verbatim>\<open>id\<close> is called \<open>id'\<close> here, since \<open>id\<close> is the
  identity function of HOL.
\<close>

record service =
  id' :: int
  name :: string
  host :: string

text \<open>
  The file at \<^verbatim>\<open>getPath()\<close>. Opening it for reading raises
  \<^verbatim>\<open>FileNotFoundError\<close> when the file is absent; opening it with mode
  \<^verbatim>\<open>'w'\<close> creates it, and raises \<^verbatim>\<open>FileNotFoundError\<close> only when the
  directory \<^verbatim>\<open>json-schemas\<close> is absent too.
\<close>

datatype storage =
    NoDirectory
  | NoFile
  | Stored "service list"

text \<open>
  One remote request, as the controller issues it: \<^verbatim>\<open>WTSS(host).coverages\<close>,
  \<^verbatim>\<open>WTSS(host)[product]\<close>, \<^verbatim>\<open>.ts(...)\<close> on the coverage so obtained, and
  \<^verbatim>\<open>requests.get(url, params, timeout=100)\<close>. Coordinates are Python floats that
  the controller only passes on; they are reals here.
\<close>

record query =
  attributes :: "string list"
  longitude :: real
  latitude :: real
  start_date :: string
  end_date :: string

datatype param = PStr string | PNum real

datatype request =
    ListCoverages string
  | DescribeCoverage string string
  | TimeSeries string string query
  | HttpGet string "(string \<times> param) list"

text \<open>
  The state that the methods of \<^verbatim>\<open>Services\<close> read and change: the JSON file, and
  the remote requests issued so far, oldest first.
\<close>

record state =
  storage :: storage
  trace :: "request list"

subsection \<open>The remote side\<close>

text \<open>
  What \<^verbatim>\<open>requests.get\<close> returns: the status code, and the timeline found at
  \<^verbatim>\<open>response.json()["result"]["timeline"]\<close> together with the rest of the
  document; \<open>Inl\<close> when decoding the body or one of the two lookups raises.
\<close>

record 'a ts_document =
  timeline :: "'a list"
  payload :: string

record http_response =
  status_code :: int
  json :: "exn + string ts_document"

text \<open>
  The answers of the libraries. The first argument of each remote call is the number of
  requests issued before it, so that a server may answer the same request differently
  at different moments. \<open>'d\<close> is the coverage object that \<^verbatim>\<open>WTSS(host)[product]\<close>
  returns, \<open>'t\<close> the time series object, \<open>'dt\<close> a date.
  \<^verbatim>\<open>.ts(...)\<close> checks its arguments before it sends anything: \<open>wtss_ts_check\<close> is
  the exception of that check, if any, and \<open>wtss_ts\<close> the answer to the request sent
  after it.
  \<open>strptime\<close> stands for the attribute \<^verbatim>\<open>datetime.strptime\<close> that
  \<^verbatim>\<open>productTimeSeries\<close> looks up on the name \<^verbatim>\<open>datetime\<close>.
\<close>

record ('d, 't, 'dt) remote =
  wtss_coverages :: "nat \<Rightarrow> string \<Rightarrow> exn + string list"
  wtss_getitem :: "nat \<Rightarrow> string \<Rightarrow> string \<Rightarrow> exn + 'd"
  wtss_ts_check :: "'d \<Rightarrow> query \<Rightarrow> exn option"
  wtss_ts :: "nat \<Rightarrow> 'd \<Rightarrow> query \<Rightarrow> exn + 't"
  requests_get :: "nat \<Rightarrow> string \<Rightarrow> (string \<times> param) list \<Rightarrow> exn + http_response"
  strptime :: "string \<Rightarrow> exn + 'dt"

definition issue :: "request \<Rightarrow> state \<Rightarrow> state" where
  "issue r s = s\<lparr>trace := trace s @ [r]\<rparr>"

definition clock :: "state \<Rightarrow> nat" where
  "clock s = length (trace s)"

subsection \<open>Reading and writing the file\<close>

text \<open>\<^verbatim>\<open>getServices\<close>: open the file and decode it.\<close>

definition getServices :: "state \<Rightarrow> exn + service list" where
  "getServices s =
     (case storage s of
        Stored xs \<Rightarrow> Inr xs
      | NoFile \<Rightarrow> Inl FileNotFoundError
      | NoDirectory \<Rightarrow> Inl FileNotFoundError)"

text \<open>
  \<^verbatim>\<open>with open(str(self.getPath()), 'w') as outfile: json.dump(to_save, outfile)\<close>
\<close>

definition write_services :: "service list \<Rightarrow> state \<Rightarrow> exn + state" where
  "write_services xs s =
     (case storage s of
        NoDirectory \<Rightarrow> Inl FileNotFoundError
      | NoFile \<Rightarrow> Inr (s\<lparr>storage := Stored xs\<rparr>)
      | Stored ys \<Rightarrow> Inr (s\<lparr>storage := Stored xs\<rparr>))"

text \<open>The exceptions named by \<^verbatim>\<open>except (FileNotFoundError, FileExistsError)\<close>.\<close>

definition file_error :: "exn \<Rightarrow> bool" where
  "file_error e = (e = FileNotFoundError \<or> e = FileExistsError)"

subsection \<open>Calls of the client libraries\<close>

text \<open>
  Each request is answered by the remote side and recorded in the trace. A call of
  \<^verbatim>\<open>.ts(...)\<close> whose arguments the client library refuses raises without a request.
\<close>

definition client_coverages ::
  "('d, 't, 'dt) remote \<Rightarrow> string \<Rightarrow> state \<Rightarrow> (exn + string list) \<times> state" where
  "client_coverages R h s = (wtss_coverages R (clock s) h, issue (ListCoverages h) s)"

definition client_getitem ::
  "('d, 't, 'dt) remote \<Rightarrow> string \<Rightarrow> string \<Rightarrow> state \<Rightarrow> (exn + 'd) \<times> state" where
  "client_getitem R h product s =
     (wtss_getitem R (clock s) h product, issue (DescribeCoverage h product) s)"

definition client_ts ::
  "('d, 't, 'dt) remote \<Rightarrow> string \<Rightarrow> string \<Rightarrow> 'd \<Rightarrow> query \<Rightarrow> state \<Rightarrow> (exn + 't) \<times> state"
  where
  "client_ts R h product cov q s =
     (case wtss_ts_check R cov q of
        Some e \<Rightarrow> (Inl e, s)
      | None \<Rightarrow> (wtss_ts R (clock s) cov q, issue (TimeSeries h product q) s))"

definition http_get ::
  "('d, 't, 'dt) remote \<Rightarrow> string \<Rightarrow> (string \<times> param) list \<Rightarrow> state
     \<Rightarrow> (exn + http_response) \<times> state" where
  "http_get R url params s = (requests_get R (clock s) url params, issue (HttpGet url params) s)"

subsection \<open>The connection test\<close>

text \<open>
  \<^verbatim>\<open>testServiceConnection\<close>: one request for the coverages of the host; a bare
  \<^verbatim>\<open>except\<close> turns every exception into \<^verbatim>\<open>False\<close>.
\<close>

definition testServiceConnection ::
  "('d, 't, 'dt) remote \<Rightarrow> string \<Rightarrow> state \<Rightarrow> bool \<times> state" where
  "testServiceConnection R h s =
     (case client_coverages R h s of
        (Inr cs, s1) \<Rightarrow> (True, s1)
      | (Inl e, s1) \<Rightarrow> (False, s1))"

subsection \<open>Finding, adding, deleting and editing a service\<close>

text \<open>
  \<^verbatim>\<open>findServiceByName\<close>: the loop keeps the last service whose name matches.
  Reading the file raises nothing but \<^verbatim>\<open>FileNotFoundError\<close> here, which the
  method turns into \<^verbatim>\<open>None\<close>.
\<close>

definition find_loop :: "string \<Rightarrow> service list \<Rightarrow> service option" where
  "find_loop service_name xs =
     foldl (\<lambda>found server. if name server = service_name then Some server else found) None xs"

definition findServiceByName :: "string \<Rightarrow> state \<Rightarrow> service option" where
  "findServiceByName service_name s =
     (case getServices s of
        Inr xs \<Rightarrow> find_loop service_name xs
      | Inl e \<Rightarrow> None)"

text \<open>
  \<^verbatim>\<open>addService\<close>. The connection test is the left operand of \<^verbatim>\<open>and\<close>, so it
  runs on every call. The inner \<^verbatim>\<open>try\<close> reads the list again and takes the id of its
  last element plus one; on an empty list the index \<open>-1\<close> raises
  \<^verbatim>\<open>IndexError\<close>, and the handler starts from the empty list with index 0.
\<close>

definition next_index :: "state \<Rightarrow> exn + (service list \<times> int)" where
  "next_index s =
     (case getServices s of
        Inl e \<Rightarrow> Inl e
      | Inr xs \<Rightarrow> (if xs = [] then Inl IndexError else Inr (xs, id' (last xs) + 1)))"

definition addService ::
  "('d, 't, 'dt) remote \<Rightarrow> string \<Rightarrow> string \<Rightarrow> state \<Rightarrow> (exn + service option) \<times> state" where
  "addService R nm h s =
     (let server_to_save = findServiceByName nm s;
          (ok, s1) = testServiceConnection R h s
      in if ok \<and> server_to_save = None then
           (case (case next_index s1 of
                    Inr (to_save, index) \<Rightarrow> Inr (to_save, index)
                  | Inl e \<Rightarrow>
                      if e = IndexError \<or> file_error e then Inr ([], 0) else Inl e) of
              Inl e \<Rightarrow> (if file_error e then (Inr None, s1) else (Inl e, s1))
            | Inr (to_save, index) \<Rightarrow>
                (let new = \<lparr>id' = index, name = nm, host = h\<rparr>
                 in case write_services (to_save @ [new]) s1 of
                      Inr s2 \<Rightarrow> (Inr (Some new), s2)
                    | Inl e \<Rightarrow> (if file_error e then (Inr None, s1) else (Inl e, s1))))
         else (Inr server_to_save, s1))"

text \<open>
  \<^verbatim>\<open>deleteService\<close>. \<^verbatim>\<open>list.index\<close> compares with \<^verbatim>\<open>==\<close>, which on the
  decoded objects compares the fields, and \<^verbatim>\<open>pop\<close> removes the first element equal
  to the service found; \<^verbatim>\<open>index\<close> raises \<^verbatim>\<open>ValueError\<close> when there is none.
\<close>

definition deleteService :: "string \<Rightarrow> state \<Rightarrow> (exn + service option) \<times> state" where
  "deleteService server_name s =
     (case findServiceByName server_name s of
        None \<Rightarrow> (Inr None, s)
      | Some server_to_delete \<Rightarrow>
          (case getServices s of
             Inl e \<Rightarrow> (if file_error e then (Inr None, s) else (Inl e, s))
           | Inr to_delete \<Rightarrow>
               if server_to_delete \<in> set to_delete then
                 (case write_services (remove1 server_to_delete to_delete) s of
                    Inr s1 \<Rightarrow> (Inr (Some server_to_delete), s1)
                  | Inl e \<Rightarrow> (if file_error e then (Inr None, s) else (Inl e, s)))
               else (Inl ValueError, s)))"

text \<open>
  \<^verbatim>\<open>editService\<close>: delete when the name is found, then add. The result of the
  deletion is dropped; an exception of it would propagate.
\<close>

definition editService ::
  "('d, 't, 'dt) remote \<Rightarrow> string \<Rightarrow> string \<Rightarrow> state \<Rightarrow> (exn + service option) \<times> state" where
  "editService R server_name server_host s =
     (case findServiceByName server_name s of
        None \<Rightarrow> addService R server_name server_host s
      | Some server_to_edit \<Rightarrow>
          (case deleteService server_name s of
             (Inl e, s1) \<Rightarrow> (Inl e, s1)
           | (Inr deleted, s1) \<Rightarrow> addService R server_name server_host s1))"

subsection \<open>Listing the stored services\<close>

text \<open>
  \<^verbatim>\<open>getServiceNames\<close>: the names of the services whose host passes the connection
  test, in the order of the file; the empty list when the file cannot be read.
\<close>

fun names_loop ::
  "('d, 't, 'dt) remote \<Rightarrow> service list \<Rightarrow> string list \<Rightarrow> state \<Rightarrow> string list \<times> state" where
  "names_loop R [] service_names s = (service_names, s)"
| "names_loop R (server # rest) service_names s =
     (case testServiceConnection R (host server) s of
        (True, s1) \<Rightarrow> names_loop R rest (service_names @ [name server]) s1
      | (False, s1) \<Rightarrow> names_loop R rest service_names s1)"

definition getServiceNames ::
  "('d, 't, 'dt) remote \<Rightarrow> state \<Rightarrow> (exn + string list) \<times> state" where
  "getServiceNames R s =
     (case getServices s of
        Inr xs \<Rightarrow> (case names_loop R xs [] s of (service_names, s1) \<Rightarrow> (Inr service_names, s1))
      | Inl e \<Rightarrow> (if file_error e then (Inr [], s) else (Inl e, s)))"

text \<open>
  \<^verbatim>\<open>getServicesDict\<close>: the document as a dictionary, with the one key
  \<^verbatim>\<open>services\<close>; the empty dictionary when the file cannot be read.
\<close>

definition getServicesDict :: "state \<Rightarrow> exn + (string \<rightharpoonup> service list)" where
  "getServicesDict s =
     (case getServices s of
        Inr xs \<Rightarrow> Inr [''services'' \<mapsto> xs]
      | Inl e \<Rightarrow> (if file_error e then Inr Map.empty else Inl e))"

text \<open>
  \<^verbatim>\<open>loadServices\<close> builds the elements of the tree view, pairs of a text and a
  list of children. The list of services is read once, before the loop; a service whose
  host fails the test is deleted by name. A file error inside the loop returns the
  servers collected so far.
\<close>

datatype tree = Node string "tree list"

fun load_loop ::
  "('d, 't, 'dt) remote \<Rightarrow> service list \<Rightarrow> tree list \<Rightarrow> state \<Rightarrow> exn option \<times> tree list \<times> state"
  where
  "load_loop R [] servers s = (None, servers, s)"
| "load_loop R (server # rest) servers s =
     (case testServiceConnection R (host server) s of
        (True, s1) \<Rightarrow>
          (case client_coverages R (host server) s1 of
             (Inl e, s2) \<Rightarrow> (Some e, servers, s2)
           | (Inr coverages, s2) \<Rightarrow>
               load_loop R rest
                 (servers @ [Node (name server) (map (\<lambda>coverage. Node coverage []) coverages)]) s2)
      | (False, s1) \<Rightarrow>
          (case deleteService (name server) s1 of
             (Inl e, s2) \<Rightarrow> (Some e, servers, s2)
           | (Inr deleted, s2) \<Rightarrow> load_loop R rest servers s2))"

definition loadServices ::
  "('d, 't, 'dt) remote \<Rightarrow> state \<Rightarrow> (exn + tree list) \<times> state" where
  "loadServices R s =
     (case getServices s of
        Inl e \<Rightarrow> (if file_error e then (Inr [Node ''Services'' []], s) else (Inl e, s))
      | Inr xs \<Rightarrow>
          (case load_loop R xs [] s of
             (None, servers, s1) \<Rightarrow> (Inr [Node ''Services'' servers], s1)
           | (Some e, servers, s1) \<Rightarrow>
               (if file_error e then (Inr [Node ''Services'' servers], s1) else (Inl e, s1))))"

subsection \<open>The query operations\<close>

text \<open>
  Each of them starts with \<^verbatim>\<open>self.findServiceByName(service_name).host\<close>, which
  raises \<^verbatim>\<open>AttributeError\<close> when no service has the name.
\<close>

definition listProducts ::
  "('d, 't, 'dt) remote \<Rightarrow> string \<Rightarrow> state \<Rightarrow> (exn + string list) \<times> state" where
  "listProducts R service_name s =
     (case findServiceByName service_name s of
        None \<Rightarrow> (Inl AttributeError, s)
      | Some server \<Rightarrow>
          (case testServiceConnection R (host server) s of
             (True, s1) \<Rightarrow> client_coverages R (host server) s1
           | (False, s1) \<Rightarrow> (Inr [], s1)))"

datatype 'd description = EmptyDict | Coverage 'd

definition productDescription ::
  "('d, 't, 'dt) remote \<Rightarrow> string \<Rightarrow> string \<Rightarrow> state \<Rightarrow> (exn + 'd description) \<times> state" where
  "productDescription R service_name product s =
     (case findServiceByName service_name s of
        None \<Rightarrow> (Inl AttributeError, s)
      | Some server \<Rightarrow>
          (case testServiceConnection R (host server) s of
             (True, s1) \<Rightarrow>
               (case client_getitem R (host server) product s1 of
                  (Inl e, s2) \<Rightarrow> (Inl e, s2)
                | (Inr cov, s2) \<Rightarrow> (Inr (Coverage cov), s2))
           | (False, s1) \<Rightarrow> (Inr EmptyDict, s1)))"

text \<open>\<^verbatim>\<open>",".join(list(bands))\<close>\<close>

fun join :: "string \<Rightarrow> string list \<Rightarrow> string" where
  "join sep [] = []"
| "join sep [x] = x"
| "join sep (x # y # ys) = x @ sep @ join sep (y # ys)"

text \<open>The list comprehension over the timeline: the first date that fails raises.\<close>

fun parse_timeline :: "(string \<Rightarrow> exn + 'dt) \<Rightarrow> string list \<Rightarrow> exn + 'dt list" where
  "parse_timeline f [] = Inr []"
| "parse_timeline f (t # rest) =
     (case f t of
        Inl e \<Rightarrow> Inl e
      | Inr d \<Rightarrow> (case parse_timeline f rest of Inl e \<Rightarrow> Inl e | Inr ds \<Rightarrow> Inr (d # ds)))"

text \<open>
  \<^verbatim>\<open>productTimeSeries\<close> returns the time series object of the client library, or
  the decoded document of the direct request with its timeline turned into dates, or
  \<^verbatim>\<open>None\<close>. Only the branch of the client library is inside a \<^verbatim>\<open>try\<close>.
\<close>

datatype ('t, 'dt) series = ClientSeries 't | DirectSeries "'dt ts_document"

text \<open>The keyword arguments of \<^verbatim>\<open>.ts(...)\<close>.\<close>

definition ts_query :: "string list \<Rightarrow> real \<Rightarrow> real \<Rightarrow> string \<Rightarrow> string \<Rightarrow> query" where
  "ts_query bands lon lat start_date_arg end_date_arg =
     \<lparr>attributes = bands, longitude = lon, latitude = lat,
      start_date = start_date_arg, end_date = end_date_arg\<rparr>"

text \<open>The parameters of the direct request, in the order of the dictionary.\<close>

definition ts_params ::
  "string \<Rightarrow> string list \<Rightarrow> real \<Rightarrow> real \<Rightarrow> string \<Rightarrow> string \<Rightarrow> (string \<times> param) list" where
  "ts_params product bands lon lat start_date_arg end_date_arg =
     [(''coverage'', PStr product),
      (''attributes'', PStr (join '','' bands)),
      (''longitude'', PNum lon),
      (''latitude'', PNum lat),
      (''start_date'', PStr start_date_arg),
      (''end_date'', PStr end_date_arg)]"

text \<open>\<^verbatim>\<open>("{}/wtss/time_series").format(host)\<close>\<close>

definition ts_url :: "string \<Rightarrow> string" where
  "ts_url h = h @ ''/wtss/time_series''"

definition productTimeSeries ::
  "('d, 't, 'dt) remote \<Rightarrow> string \<Rightarrow> string \<Rightarrow> string list \<Rightarrow> real \<Rightarrow> real \<Rightarrow> string \<Rightarrow> string
     \<Rightarrow> state \<Rightarrow> (exn + ('t, 'dt) series option) \<times> state" where
  "productTimeSeries R service_name product bands lon lat start_date_arg end_date_arg s =
     (case findServiceByName service_name s of
        None \<Rightarrow> (Inl AttributeError, s)
      | Some server \<Rightarrow>
          (case testServiceConnection R (host server) s of
             (True, s1) \<Rightarrow>
               (case client_getitem R (host server) product s1 of
                  (Inl e, s2) \<Rightarrow> (Inr None, s2)
                | (Inr cov, s2) \<Rightarrow>
                    (case client_ts R (host server) product cov
                            (ts_query bands lon lat start_date_arg end_date_arg) s2 of
                       (Inl e, s3) \<Rightarrow> (Inr None, s3)
                     | (Inr time_series, s3) \<Rightarrow> (Inr (Some (ClientSeries time_series)), s3)))
           | (False, s1) \<Rightarrow>
               (case findServiceByName service_name s1 of
                  None \<Rightarrow> (Inl AttributeError, s1)
                | Some server2 \<Rightarrow>
                    (case http_get R (ts_url (host server2))
                            (ts_params product bands lon lat start_date_arg end_date_arg) s1 of
                       (Inl e, s2) \<Rightarrow> (Inl e, s2)
                     | (Inr response, s2) \<Rightarrow>
                         if status_code response = 200 then
                           (case json response of
                              Inl e \<Rightarrow> (Inl e, s2)
                            | Inr doc \<Rightarrow>
                                (case parse_timeline (strptime R) (timeline doc) of
                                   Inl e \<Rightarrow> (Inl e, s2)
                                 | Inr dates \<Rightarrow>
                                     (Inr (Some (DirectSeries
                                        \<lparr>timeline = dates, payload = payload doc\<rparr>)), s2)))
                         else (Inr None, s2)))))"

subsection \<open>The default list\<close>

text \<open>
  \<^verbatim>\<open>resetAvailableServices\<close> registers the default service at
  \<^verbatim>\<open>Config.WTSS_HOST\<close> (a parameter here: \<^verbatim>\<open>config.py\<close> is not part of the
  sources) and writes the empty list when no stored service passes the test. The
  constructor calls it when the file cannot be read.
\<close>

definition resetAvailableServices ::
  "('d, 't, 'dt) remote \<Rightarrow> string \<Rightarrow> state \<Rightarrow> (exn + unit) \<times> state" where
  "resetAvailableServices R wtss_host s =
     (case addService R ''Brazil Data Cube'' wtss_host s of
        (Inl e, s1) \<Rightarrow> (Inl e, s1)
      | (Inr added, s1) \<Rightarrow>
          (case getServiceNames R s1 of
             (Inl e, s2) \<Rightarrow> (Inl e, s2)
           | (Inr service_names, s2) \<Rightarrow>
               if service_names = [] then
                 (case write_services [] s2 of
                    Inl e \<Rightarrow> (Inl e, s2)
                  | Inr s3 \<Rightarrow> (Inr (), s3))
               else (Inr (), s2)))"

definition init ::
  "('d, 't, 'dt) remote \<Rightarrow> string \<Rightarrow> state \<Rightarrow> (exn + unit) \<times> state" where
  "init R wtss_host s =
     (case getServices s of
        Inr xs \<Rightarrow> (Inr (), s)
      | Inl e \<Rightarrow>
          (if e = FileNotFoundError then resetAvailableServices R wtss_host s else (Inl e, s)))"

subsection \<open>Reprojection\<close>

text \<open>
  \<^verbatim>\<open>Controls.transformProjection\<close> hands the work to \<^verbatim>\<open>pyproj\<close>:
  \<^verbatim>\<open>CRS.from_string\<close>, \<^verbatim>\<open>Proj(init=...)\<close> and \<^verbatim>\<open>transform\<close>, each of which
  may raise. The arguments are evaluated from left to right.
\<close>

record ('crs, 'proj) pyproj =
  from_string :: "string \<Rightarrow> exn + 'crs"
  Proj_init :: "'crs \<Rightarrow> exn + 'proj"
  transform :: "'proj \<Rightarrow> 'proj \<Rightarrow> real \<Rightarrow> real \<Rightarrow> exn + real \<times> real"

record position =
  lat :: real
  long :: real
  crs :: string

definition make_proj :: "('crs, 'proj) pyproj \<Rightarrow> string \<Rightarrow> exn + 'proj" where
  "make_proj P projection =
     (case from_string P projection of
        Inl e \<Rightarrow> Inl e
      | Inr c \<Rightarrow> Proj_init P c)"

definition transformProjection ::
  "('crs, 'proj) pyproj \<Rightarrow> string \<Rightarrow> real \<Rightarrow> real \<Rightarrow> exn + position" where
  "transformProjection P projection latitude_arg longitude_arg =
     (case make_proj P projection of
        Inl e \<Rightarrow> Inl e
      | Inr p1 \<Rightarrow>
          (case make_proj P ''EPSG:4326'' of
             Inl e \<Rightarrow> Inl e
           | Inr p2 \<Rightarrow>
               (case transform P p1 p2 latitude_arg longitude_arg of
                  Inl e \<Rightarrow> Inl e
                | Inr (la, lo) \<Rightarrow> Inr \<lparr>lat = la, long = lo, crs = ''EPSG:4326''\<rparr>)))"

subsection \<open>Notions used in the statements\<close>

text \<open>The list that the file holds; empty when there is no file.\<close>

definition services_of :: "state \<Rightarrow> service list" where
  "services_of s = (case storage s of Stored xs \<Rightarrow> xs | NoFile \<Rightarrow> [] | NoDirectory \<Rightarrow> [])"

text \<open>The id that \<^verbatim>\<open>addService\<close> gives to a service appended to the list \<open>xs\<close>.\<close>

definition next_id :: "service list \<Rightarrow> int" where
  "next_id xs = (if xs = [] then 0 else id' (last xs) + 1)"

text \<open>The ids of the stored services increase strictly; their names differ.\<close>

definition ids_increasing :: "state \<Rightarrow> bool" where
  "ids_increasing s = sorted_wrt (<) (map id' (services_of s))"

definition names_distinct :: "state \<Rightarrow> bool" where
  "names_distinct s = distinct (map name (services_of s))"

definition good_state :: "state \<Rightarrow> bool" where
  "good_state s \<longleftrightarrow> ids_increasing s \<and> names_distinct s"

text \<open>
  The states that the methods reach from a file that holds the empty list or from no
  file at all. \<open>reset\<close> is the step that writes the default list; \<open>request\<close> stands
  for the query operations, which issue requests and leave the file alone.
\<close>

inductive reachable :: "('d, 't, 'dt) remote \<Rightarrow> string \<Rightarrow> state \<Rightarrow> bool"
  for R :: "('d, 't, 'dt) remote" and wtss_host :: string where
  empty_list: "storage s = Stored [] \<Longrightarrow> reachable R wtss_host s"
| no_list: "storage s = NoFile \<or> storage s = NoDirectory \<Longrightarrow> reachable R wtss_host s"
| reset: "reachable R wtss_host s \<Longrightarrow> reachable R wtss_host (snd (resetAvailableServices R wtss_host s))"
| add: "reachable R wtss_host s \<Longrightarrow> reachable R wtss_host (snd (addService R nm h s))"
| delete: "reachable R wtss_host s \<Longrightarrow> reachable R wtss_host (snd (deleteService n s))"
| edit: "reachable R wtss_host s \<Longrightarrow> reachable R wtss_host (snd (editService R n h s))"
| load: "reachable R wtss_host s \<Longrightarrow> reachable R wtss_host (snd (loadServices R s))"
| request: "reachable R wtss_host s \<Longrightarrow> reachable R wtss_host (issue r s)"

code_pred reachable .

text \<open>
  What happens to a stored service when the loop of \<^verbatim>\<open>loadServices\<close> reaches it
  at the moment \<open>t\<close>, the number of requests issued before: its connection test fails;
  or the test succeeds and the request for its coverages, one moment later, answers
  with their names; or that request raises, which ends the loop and leaves the services
  behind it untested. \<open>verdicts R t xs\<close> follows the services of \<open>xs\<close> from the moment
  \<open>t\<close> on: a failed test takes one request, a passed one two.
\<close>

datatype verdict = Failed | Passed "string list" | Raised exn | Untested

fun verdicts :: "('d, 't, 'dt) remote \<Rightarrow> nat \<Rightarrow> service list \<Rightarrow> verdict list" where
  "verdicts R t [] = []"
| "verdicts R t (server # rest) =
     (case wtss_coverages R t (host server) of
        Inl e \<Rightarrow> Failed # verdicts R (Suc t) rest
      | Inr answered \<Rightarrow>
          (case wtss_coverages R (Suc t) (host server) of
             Inl e \<Rightarrow> Raised e # map (\<lambda>x. Untested) rest
           | Inr coverages \<Rightarrow> Passed coverages # verdicts R (Suc (Suc t)) rest))"

text \<open>The exception that ended the loop, if any.\<close>

fun raised :: "verdict list \<Rightarrow> exn option" where
  "raised [] = None"
| "raised (Raised e # vs) = Some e"
| "raised (v # vs) = raised vs"

text \<open>The services that passed, with the names of their coverages, in their order.\<close>

fun passing :: "service list \<Rightarrow> verdict list \<Rightarrow> (service \<times> string list) list" where
  "passing (server # rest) (Passed coverages # vs) = (server, coverages) # passing rest vs"
| "passing (server # rest) (v # vs) = passing rest vs"
| "passing xs vs = []"

text \<open>The services whose test did not fail, in their order.\<close>

fun remaining :: "service list \<Rightarrow> verdict list \<Rightarrow> service list" where
  "remaining (server # rest) (Failed # vs) = remaining rest vs"
| "remaining (server # rest) (v # vs) = server # remaining rest vs"
| "remaining xs vs = []"

text \<open>The element of the tree for a service and the names of its coverages.\<close>

definition listed :: "service \<times> string list \<Rightarrow> tree" where
  "listed p = Node (name (fst p)) (map (\<lambda>coverage. Node coverage []) (snd p))"

subsection \<open>Concrete inputs\<close>

text \<open>A remote side that answers every client call, and one that answers none.\<close>

definition up_remote :: "(unit, unit, unit) remote" where
  "up_remote =
     \<lparr>wtss_coverages = (\<lambda>t h. Inr [''c1'']),
      wtss_getitem = (\<lambda>t h p. Inr ()),
      wtss_ts_check = (\<lambda>d q. None),
      wtss_ts = (\<lambda>t d q. Inr ()),
      requests_get = (\<lambda>t u ps. Inl ConnectionError),
      strptime = (\<lambda>x. Inl AttributeError)\<rparr>"

definition down_remote :: "(unit, unit, unit) remote" where
  "down_remote =
     \<lparr>wtss_coverages = (\<lambda>t h. Inl ConnectionError),
      wtss_getitem = (\<lambda>t h p. Inl ConnectionError),
      wtss_ts_check = (\<lambda>d q. None),
      wtss_ts = (\<lambda>t d q. Inl ConnectionError),
      requests_get = (\<lambda>t u ps. Inl ConnectionError),
      strptime = (\<lambda>x. Inl AttributeError)\<rparr>"

text \<open>
  A remote side on which only the direct request succeeds, one on which the direct
  request answers 404, one that knows no product, and one on which a single host
  answers.
\<close>

definition direct_only_remote :: "(unit, unit, unit) remote" where
  "direct_only_remote =
     \<lparr>wtss_coverages = (\<lambda>t h. Inl ConnectionError),
      wtss_getitem = (\<lambda>t h p. Inl ConnectionError),
      wtss_ts_check = (\<lambda>d q. None),
      wtss_ts = (\<lambda>t d q. Inl ConnectionError),
      requests_get = (\<lambda>t u ps. Inr \<lparr>status_code = 200,
                                      json = Inr \<lparr>timeline = [], payload = ''doc''\<rparr>\<rparr>),
      strptime = (\<lambda>x. Inl AttributeError)\<rparr>"

definition not_found_remote :: "(unit, unit, unit) remote" where
  "not_found_remote =
     \<lparr>wtss_coverages = (\<lambda>t h. Inl ConnectionError),
      wtss_getitem = (\<lambda>t h p. Inl ConnectionError),
      wtss_ts_check = (\<lambda>d q. None),
      wtss_ts = (\<lambda>t d q. Inl ConnectionError),
      requests_get = (\<lambda>t u ps. Inr \<lparr>status_code = 404, json = Inl ValueError\<rparr>),
      strptime = (\<lambda>x. Inl AttributeError)\<rparr>"

definition no_product_remote :: "(unit, unit, unit) remote" where
  "no_product_remote =
     \<lparr>wtss_coverages = (\<lambda>t h. Inr [''c1'']),
      wtss_getitem = (\<lambda>t h p. Inl KeyError),
      wtss_ts_check = (\<lambda>d q. None),
      wtss_ts = (\<lambda>t d q. Inl ConnectionError),
      requests_get = (\<lambda>t u ps. Inl ConnectionError),
      strptime = (\<lambda>x. Inl AttributeError)\<rparr>"

definition good_host_remote :: "(unit, unit, unit) remote" where
  "good_host_remote =
     \<lparr>wtss_coverages = (\<lambda>t h. if h = ''good'' then Inr [''c1''] else Inl ConnectionError),
      wtss_getitem = (\<lambda>t h p. Inl ConnectionError),
      wtss_ts_check = (\<lambda>d q. None),
      wtss_ts = (\<lambda>t d q. Inl ConnectionError),
      requests_get = (\<lambda>t u ps. Inl ConnectionError),
      strptime = (\<lambda>x. Inl AttributeError)\<rparr>"

text \<open>A remote side whose client refuses the arguments of every time series call.\<close>

definition refusing_remote :: "(unit, unit, unit) remote" where
  "refusing_remote =
     \<lparr>wtss_coverages = (\<lambda>t h. Inr [''c1'']),
      wtss_getitem = (\<lambda>t h p. Inr ()),
      wtss_ts_check = (\<lambda>d q. Some ValueError),
      wtss_ts = (\<lambda>t d q. Inr ()),
      requests_get = (\<lambda>t u ps. Inl ConnectionError),
      strptime = (\<lambda>x. Inl AttributeError)\<rparr>"

text \<open>
  A remote side whose client answers the first request and raises
  \<^verbatim>\<open>FileNotFoundError\<close> on every later one.
\<close>

definition missing_file_remote :: "(unit, unit, unit) remote" where
  "missing_file_remote =
     \<lparr>wtss_coverages = (\<lambda>t h. if t = 0 then Inr [''c1''] else Inl FileNotFoundError),
      wtss_getitem = (\<lambda>t h p. Inl ConnectionError),
      wtss_ts_check = (\<lambda>d q. None),
      wtss_ts = (\<lambda>t d q. Inl ConnectionError),
      requests_get = (\<lambda>t u ps. Inl ConnectionError),
      strptime = (\<lambda>x. Inl AttributeError)\<rparr>"

text \<open>A state with one stored service.\<close>

definition one_named_b :: state where
  "one_named_b = \<lparr>storage = Stored [\<lparr>id' = 4, name = ''b'', host = ''h1''\<rparr>], trace = []\<rparr>"

text \<open>
  Two services with different names on a host that fails and a host that answers, and
  the same two under one name.
\<close>

definition bad_and_good :: "service list" where
  "bad_and_good =
     [\<lparr>id' = 0, name = ''a'', host = ''bad''\<rparr>, \<lparr>id' = 1, name = ''b'', host = ''good''\<rparr>]"

definition bad_then_good :: "service list" where
  "bad_then_good =
     [\<lparr>id' = 0, name = ''a'', host = ''bad''\<rparr>, \<lparr>id' = 1, name = ''a'', host = ''good''\<rparr>]"

text \<open>A stored list in which two services share a name.\<close>

definition two_named_a :: "service list" where
  "two_named_a =
     [\<lparr>id' = 0, name = ''a'', host = ''h1''\<rparr>, \<lparr>id' = 1, name = ''a'', host = ''h2''\<rparr>]"

text \<open>
  The state after two additions to the empty list, and the state after a deletion, a
  third addition and an edit that follow them.
\<close>

definition after_two_adds :: state where
  "after_two_adds =
     snd (addService up_remote ''b'' ''h2''
       (snd (addService up_remote ''a'' ''h1'' \<lparr>storage = Stored [], trace = []\<rparr>)))"

definition after_edit :: state where
  "after_edit =
     snd (editService up_remote ''b'' ''h9''
       (snd (addService up_remote ''c'' ''h3'' (snd (deleteService ''a'' after_two_adds)))))"

text \<open>A projection library that accepts every string and leaves the coordinates alone.\<close>

definition plain_pyproj :: "(string, string) pyproj" where
  "plain_pyproj =
     \<lparr>from_string = (\<lambda>p. Inr p), Proj_init = (\<lambda>c. Inr c),
      transform = (\<lambda>p1 p2 x y. Inr (x, y))\<rparr>"

text \<open>A projection library that accepts two coordinate systems and rejects every other string.\<close>

definition strict_pyproj :: "(string, string) pyproj" where
  "strict_pyproj =
     \<lparr>from_string =
        (\<lambda>p. if p = ''EPSG:4326'' \<or> p = ''EPSG:3857'' then Inr p else Inl LibraryError),
      Proj_init = (\<lambda>c. Inr c),
      transform = (\<lambda>p1 p2 x y. Inr (x, y))\<rparr>"

section \<open>Properties\<close>

subsection \<open>The loop of \<open>findServiceByName\<close>\<close>

lemma find_loop_Nil: "find_loop n [] = None"
  by (simp add: find_loop_def)

lemma find_loop_snoc:
  "find_loop n (xs @ [x]) = (if name x = n then Some x else find_loop n xs)"
  by (simp add: find_loop_def)

lemma find_loop_None_iff: "find_loop n xs = None \<longleftrightarrow> n \<notin> name ` set xs"
  by (induction xs rule: rev_induct) (auto simp: find_loop_Nil find_loop_snoc)

lemma find_loop_Some_mem: "find_loop n xs = Some srv \<Longrightarrow> srv \<in> set xs \<and> name srv = n"
  by (induction xs rule: rev_induct) (auto simp: find_loop_Nil find_loop_snoc split: if_splits)

lemma find_loop_filter:
  "find_loop n xs = (case filter (\<lambda>x. name x = n) xs of [] \<Rightarrow> None | y # ys \<Rightarrow> Some (last (y # ys)))"
  by (induction xs rule: rev_induct) (auto simp: find_loop_Nil find_loop_snoc split: list.splits)

lemma find_loop_unique:
  "filter (\<lambda>x. name x = n) xs = [srv] \<Longrightarrow> find_loop n xs = Some srv"
  by (simp add: find_loop_filter)

lemma find_loop_registered:
  assumes "nm \<in> name ` set xs"
  shows "find_loop nm xs = Some (last (filter (\<lambda>x. name x = nm) xs))"
proof -
  from assms have "filter (\<lambda>x. name x = nm) xs \<noteq> []"
    by (auto simp: filter_empty_conv)
  then show ?thesis
    by (simp add: find_loop_filter split: list.splits)
qed

lemma filter_singleton_holds: "filter P xs = [y] \<Longrightarrow> P y"
proof -
  assume "filter P xs = [y]"
  then have "y \<in> set (filter P xs)" by simp
  then show "P y" by simp
qed

lemma filter_remove1_unique:
  "filter P xs = [y] \<Longrightarrow> filter P (remove1 y xs) = []"
proof (induction xs)
  case Nil
  then show ?case by simp
next
  case (Cons x xs)
  have py: "P y" using Cons.prems by (rule filter_singleton_holds)
  show ?case
  proof (cases "x = y")
    case True
    with Cons.prems py show ?thesis by simp
  next
    case False
    with Cons py show ?thesis by (auto split: if_splits)
  qed
qed

lemma sorted_wrt_map_remove1:
  "sorted_wrt P (map f xs) \<Longrightarrow> sorted_wrt P (map f (remove1 x xs))"
  by (induction xs) (auto dest: notin_set_remove1)

lemma strict_le_last:
  "sorted_wrt (<) (ys :: int list) \<Longrightarrow> y \<in> set ys \<Longrightarrow> y \<le> last ys"
  by (induction ys) (auto simp: less_imp_le)

subsection \<open>The state after a request\<close>

lemma storage_issue: "storage (issue r s) = storage s"
  by (simp add: issue_def)

lemma trace_issue: "trace (issue r s) = trace s @ [r]"
  by (simp add: issue_def)

lemma test_snd: "snd (testServiceConnection R h s) = issue (ListCoverages h) s"
  by (simp add: testServiceConnection_def client_coverages_def split: sum.splits)

lemma test_fst:
  "fst (testServiceConnection R h s) = (\<exists>cs. wtss_coverages R (clock s) h = Inr cs)"
  by (simp add: testServiceConnection_def client_coverages_def split: sum.splits)

lemma test_eq:
  "testServiceConnection R h s = (fst (testServiceConnection R h s), issue (ListCoverages h) s)"
  by (metis prod.collapse test_snd)

lemma getServices_issue: "getServices (issue r s) = getServices s"
  by (simp add: getServices_def storage_issue)

lemma find_issue: "findServiceByName n (issue r s) = findServiceByName n s"
  by (simp add: findServiceByName_def getServices_issue)

lemma find_Stored: "storage s = Stored xs \<Longrightarrow> findServiceByName n s = find_loop n xs"
  by (simp add: findServiceByName_def getServices_def)

lemma find_unreadable: "storage s \<noteq> Stored (services_of s) \<Longrightarrow> findServiceByName n s = None"
  by (cases "storage s") (simp_all add: findServiceByName_def getServices_def services_of_def)

lemma clock_storage_update: "clock (s\<lparr>storage := x\<rparr>) = clock s"
  by (simp add: clock_def)

lemma test_fst_storage_update:
  "fst (testServiceConnection R h (s\<lparr>storage := x\<rparr>)) = fst (testServiceConnection R h s)"
  by (simp add: test_fst clock_storage_update)

lemma test_up: "fst (testServiceConnection up_remote h s)"
  by (simp add: test_fst up_remote_def)

lemma test_down: "\<not> fst (testServiceConnection down_remote h s)"
  by (simp add: test_fst down_remote_def)

lemma find_two_named_a: "find_loop ''a'' two_named_a = Some \<lparr>id' = 1, name = ''a'', host = ''h2''\<rparr>"
  by (simp add: find_loop_def two_named_a_def)

subsection \<open>What \<open>addService\<close> and \<open>deleteService\<close> compute\<close>

lemma addService_Stored:
  assumes "storage s = Stored xs"
  shows "addService R nm h s =
     (if fst (testServiceConnection R h s) \<and> find_loop nm xs = None
      then (Inr (Some \<lparr>id' = next_id xs, name = nm, host = h\<rparr>),
            (issue (ListCoverages h) s)
              \<lparr>storage := Stored (xs @ [\<lparr>id' = next_id xs, name = nm, host = h\<rparr>])\<rparr>)
      else (Inr (find_loop nm xs), issue (ListCoverages h) s))"
proof -
  have g: "getServices (issue (ListCoverages h) s) = Inr xs"
    using assms by (simp add: getServices_def storage_issue)
  have w: "\<And>ys. write_services ys (issue (ListCoverages h) s)
            = Inr ((issue (ListCoverages h) s)\<lparr>storage := Stored ys\<rparr>)"
    using assms by (simp add: write_services_def storage_issue)
  show ?thesis
    unfolding addService_def
    by (subst test_eq)
       (simp add: find_Stored [OF assms] next_index_def g w next_id_def file_error_def Let_def)
qed

lemma addService_NoFile:
  assumes "storage s = NoFile"
  shows "addService R nm h s =
     (if fst (testServiceConnection R h s)
      then (Inr (Some \<lparr>id' = 0, name = nm, host = h\<rparr>),
            (issue (ListCoverages h) s)\<lparr>storage := Stored [\<lparr>id' = 0, name = nm, host = h\<rparr>]\<rparr>)
      else (Inr None, issue (ListCoverages h) s))"
proof -
  have f: "findServiceByName nm s = None"
    using assms by (simp add: findServiceByName_def getServices_def)
  have g: "getServices (issue (ListCoverages h) s) = Inl FileNotFoundError"
    using assms by (simp add: getServices_def storage_issue)
  have w: "\<And>ys. write_services ys (issue (ListCoverages h) s)
            = Inr ((issue (ListCoverages h) s)\<lparr>storage := Stored ys\<rparr>)"
    using assms by (simp add: write_services_def storage_issue)
  show ?thesis
    unfolding addService_def
    by (subst test_eq) (simp add: f next_index_def g w file_error_def Let_def)
qed

lemma addService_NoDirectory:
  assumes "storage s = NoDirectory"
  shows "addService R nm h s = (Inr None, issue (ListCoverages h) s)"
proof -
  have f: "findServiceByName nm s = None"
    using assms by (simp add: findServiceByName_def getServices_def)
  have g: "getServices (issue (ListCoverages h) s) = Inl FileNotFoundError"
    using assms by (simp add: getServices_def storage_issue)
  have w: "\<And>ys. write_services ys (issue (ListCoverages h) s) = Inl FileNotFoundError"
    using assms by (simp add: write_services_def storage_issue)
  show ?thesis
    unfolding addService_def
    by (subst test_eq) (simp add: f next_index_def g w file_error_def Let_def)
qed

lemma deleteService_Stored:
  assumes "storage s = Stored xs"
  shows "deleteService n s =
     (case find_loop n xs of
        None \<Rightarrow> (Inr None, s)
      | Some srv \<Rightarrow> (Inr (Some srv), s\<lparr>storage := Stored (remove1 srv xs)\<rparr>))"
proof (cases "find_loop n xs")
  case None
  then show ?thesis by (simp add: deleteService_def find_Stored [OF assms])
next
  case (Some srv)
  then have "srv \<in> set xs" by (simp add: find_loop_Some_mem)
  with Some assms show ?thesis
    by (simp add: deleteService_def find_Stored [OF assms] getServices_def write_services_def)
qed

lemma deleteService_unreadable:
  assumes "storage s = NoFile \<or> storage s = NoDirectory"
  shows "deleteService n s = (Inr None, s)"
  using assms by (auto simp: deleteService_def findServiceByName_def getServices_def)

subsection \<open>Adding and deleting\<close>

text \<open>
  Claim C6, as amended. When the file can be written (it exists, or is absent with its
  directory present), \<open>addService\<close> changes the storage exactly when the connection test
  for the host succeeds and no stored service has the given name; it then appends a
  service with that name and host, whose id is the last id plus one, or 0 on the empty
  list, and returns it. When a stored service has the name, the storage is unchanged and
  the last stored service of that name is returned; when none has it and the test fails,
  the storage is unchanged and the result is \<^verbatim>\<open>None\<close>. When the file cannot be
  written, nothing is registered and the result is \<^verbatim>\<open>None\<close>.
\<close>

theorem addService_registers_iff:
  "(storage s \<noteq> NoDirectory \<longrightarrow>
      (storage (snd (addService R nm h s)) \<noteq> storage s
         \<longleftrightarrow> fst (testServiceConnection R h s) \<and> nm \<notin> name ` set (services_of s))
    \<and> (fst (testServiceConnection R h s) \<and> nm \<notin> name ` set (services_of s) \<longrightarrow>
          storage (snd (addService R nm h s))
            = Stored (services_of s @
                [\<lparr>id' = (if services_of s = [] then 0 else id' (last (services_of s)) + 1),
                  name = nm, host = h\<rparr>])
        \<and> fst (addService R nm h s)
            = Inr (Some \<lparr>id' = (if services_of s = [] then 0 else id' (last (services_of s)) + 1),
                         name = nm, host = h\<rparr>))
    \<and> (nm \<in> name ` set (services_of s) \<longrightarrow>
          storage (snd (addService R nm h s)) = storage s
        \<and> fst (addService R nm h s)
            = Inr (Some (last (filter (\<lambda>x. name x = nm) (services_of s)))))
    \<and> (\<not> fst (testServiceConnection R h s) \<and> nm \<notin> name ` set (services_of s) \<longrightarrow>
          storage (snd (addService R nm h s)) = storage s
        \<and> fst (addService R nm h s) = Inr None))
   \<and> (storage s = NoDirectory \<longrightarrow>
          storage (snd (addService R nm h s)) = NoDirectory
        \<and> fst (addService R nm h s) = Inr None)"
proof (cases "storage s")
  case NoDirectory
  then show ?thesis by (simp add: addService_NoDirectory storage_issue)
next
  case NoFile
  show ?thesis
    by (simp add: addService_NoFile [OF NoFile] NoFile services_of_def storage_issue)
next
  case (Stored xs)
  have sv: "services_of s = xs" by (simp add: services_of_def Stored)
  show ?thesis
  proof (cases "nm \<in> name ` set xs")
    case True
    then have fl: "find_loop nm xs = Some (last (filter (\<lambda>x. name x = nm) xs))"
      by (rule find_loop_registered)
    show ?thesis
      using True by (simp add: addService_Stored [OF Stored] fl sv Stored storage_issue)
  next
    case False
    then have fl: "find_loop nm xs = None" by (simp add: find_loop_None_iff)
    show ?thesis
      using False
      by (simp add: addService_Stored [OF Stored] fl sv Stored storage_issue next_id_def)
  qed
qed

theorem addService_registers_iff_witness:
  "storage one_named_b \<noteq> NoDirectory
   \<and> services_of one_named_b = [\<lparr>id' = 4, name = ''b'', host = ''h1''\<rparr>]
   \<and> fst (testServiceConnection up_remote ''h'' one_named_b)
   \<and> ''a'' \<notin> name ` set (services_of one_named_b)
   \<and> storage (snd (addService up_remote ''a'' ''h'' one_named_b))
       = Stored [\<lparr>id' = 4, name = ''b'', host = ''h1''\<rparr>, \<lparr>id' = 5, name = ''a'', host = ''h''\<rparr>]
   \<and> fst (addService up_remote ''a'' ''h'' one_named_b)
       = Inr (Some \<lparr>id' = 5, name = ''a'', host = ''h''\<rparr>)
   \<and> ''b'' \<in> name ` set (services_of one_named_b)
   \<and> storage (snd (addService up_remote ''b'' ''h'' one_named_b)) = storage one_named_b
   \<and> fst (addService up_remote ''b'' ''h'' one_named_b)
       = Inr (Some \<lparr>id' = 4, name = ''b'', host = ''h1''\<rparr>)
   \<and> \<not> fst (testServiceConnection down_remote ''h'' one_named_b)
   \<and> storage (snd (addService down_remote ''a'' ''h'' one_named_b)) = storage one_named_b
   \<and> fst (addService down_remote ''a'' ''h'' one_named_b) = Inr None
   \<and> storage (snd (addService up_remote ''a'' ''h'' \<lparr>storage = Stored [], trace = []\<rparr>))
       = Stored [\<lparr>id' = 0, name = ''a'', host = ''h''\<rparr>]"
proof -
  have sv: "services_of one_named_b = [\<lparr>id' = 4, name = ''b'', host = ''h1''\<rparr>]"
    by (simp add: services_of_def one_named_b_def)
  have st: "storage one_named_b \<noteq> NoDirectory"
    by (simp add: one_named_b_def)
  have sv0: "services_of \<lparr>storage = Stored [], trace = []\<rparr> = []"
    by (simp add: services_of_def)
  show ?thesis
    using addService_registers_iff
        [where s = one_named_b and R = up_remote and h = "''h''" and nm = "''a''"]
      addService_registers_iff
        [where s = one_named_b and R = up_remote and h = "''h''" and nm = "''b''"]
      addService_registers_iff
        [where s = one_named_b and R = down_remote and h = "''h''" and nm = "''a''"]
      addService_registers_iff
        [where s = "\<lparr>storage = Stored [], trace = []\<rparr>" and R = up_remote
           and h = "''h''" and nm = "''a''"]
    by (simp add: test_up test_down sv st sv0)
qed

text \<open>
  The claim as stated fails when the directory of the file is missing: the host passes
  the test and no service has the name, yet nothing is registered and the result is
  \<^verbatim>\<open>None\<close>.
\<close>

theorem addService_no_directory_counterexample:
  "fst (testServiceConnection up_remote ''h'' \<lparr>storage = NoDirectory, trace = []\<rparr>)
   \<and> findServiceByName ''a'' \<lparr>storage = NoDirectory, trace = []\<rparr> = None
   \<and> fst (addService up_remote ''a'' ''h'' \<lparr>storage = NoDirectory, trace = []\<rparr>) = Inr None
   \<and> storage (snd (addService up_remote ''a'' ''h'' \<lparr>storage = NoDirectory, trace = []\<rparr>))
       = NoDirectory"
  by (simp add: test_up findServiceByName_def getServices_def addService_NoDirectory storage_issue)

text \<open>
  Claim C2, as amended. On every stored list, adding a name that is not registered with
  a host that passes the connection test makes \<open>findServiceByName\<close> return a service
  with that name and host. Deleting a name makes \<open>findServiceByName\<close> return
  \<^verbatim>\<open>None\<close> when exactly one stored service has the name.
\<close>

theorem add_then_find_delete_then_find:
  "(storage s = Stored xs \<and> fst (testServiceConnection R h s) \<and> findServiceByName nm s = None
      \<longrightarrow> (\<exists>srv. findServiceByName nm (snd (addService R nm h s)) = Some srv
                \<and> name srv = nm \<and> host srv = h))
   \<and> (storage s = Stored xs \<and> filter (\<lambda>x. name x = n) xs = [server]
      \<longrightarrow> fst (deleteService n s) = Inr (Some server)
          \<and> findServiceByName n (snd (deleteService n s)) = None)"
proof (intro conjI impI)
  assume a: "storage s = Stored xs \<and> fst (testServiceConnection R h s)
               \<and> findServiceByName nm s = None"
  then have st: "storage s = Stored xs" and ok: "fst (testServiceConnection R h s)"
    and nf: "find_loop nm xs = None"
    by (auto simp: find_Stored)
  let ?new = "\<lparr>id' = next_id xs, name = nm, host = h\<rparr>"
  have "storage (snd (addService R nm h s)) = Stored (xs @ [?new])"
    by (simp add: addService_Stored [OF st] ok nf)
  then have "findServiceByName nm (snd (addService R nm h s)) = Some ?new"
    by (simp add: find_Stored find_loop_snoc)
  then show "\<exists>srv. findServiceByName nm (snd (addService R nm h s)) = Some srv
                \<and> name srv = nm \<and> host srv = h"
    by simp
next
  assume b: "storage s = Stored xs \<and> filter (\<lambda>x. name x = n) xs = [server]"
  then have st: "storage s = Stored xs" and fl: "find_loop n xs = Some server"
    by (auto simp: find_loop_unique)
  show "fst (deleteService n s) = Inr (Some server)"
    by (simp add: deleteService_Stored [OF st] fl)
  have "storage (snd (deleteService n s)) = Stored (remove1 server xs)"
    by (simp add: deleteService_Stored [OF st] fl)
  moreover have "filter (\<lambda>x. name x = n) (remove1 server xs) = []"
    using b by (simp add: filter_remove1_unique)
  ultimately show "findServiceByName n (snd (deleteService n s)) = None"
    by (simp add: find_Stored find_loop_filter)
qed

theorem add_then_find_delete_then_find_witness:
  "storage \<lparr>storage = Stored [\<lparr>id' = 4, name = ''b'', host = ''h1''\<rparr>], trace = []\<rparr>
     = Stored [\<lparr>id' = 4, name = ''b'', host = ''h1''\<rparr>]
   \<and> fst (testServiceConnection up_remote ''h''
        \<lparr>storage = Stored [\<lparr>id' = 4, name = ''b'', host = ''h1''\<rparr>], trace = []\<rparr>)
   \<and> findServiceByName ''a''
        \<lparr>storage = Stored [\<lparr>id' = 4, name = ''b'', host = ''h1''\<rparr>], trace = []\<rparr> = None
   \<and> (\<exists>srv. findServiceByName ''a'' (snd (addService up_remote ''a'' ''h''
          \<lparr>storage = Stored [\<lparr>id' = 4, name = ''b'', host = ''h1''\<rparr>], trace = []\<rparr>)) = Some srv
        \<and> name srv = ''a'' \<and> host srv = ''h'')
   \<and> filter (\<lambda>x. name x = ''b'') [\<lparr>id' = 4, name = ''b'', host = ''h1''\<rparr>]
       = [\<lparr>id' = 4, name = ''b'', host = ''h1''\<rparr>]
   \<and> fst (deleteService ''b''
        \<lparr>storage = Stored [\<lparr>id' = 4, name = ''b'', host = ''h1''\<rparr>], trace = []\<rparr>)
       = Inr (Some \<lparr>id' = 4, name = ''b'', host = ''h1''\<rparr>)
   \<and> findServiceByName ''b'' (snd (deleteService ''b''
        \<lparr>storage = Stored [\<lparr>id' = 4, name = ''b'', host = ''h1''\<rparr>], trace = []\<rparr>)) = None"
  using add_then_find_delete_then_find
    [where s = "\<lparr>storage = Stored [\<lparr>id' = 4, name = ''b'', host = ''h1''\<rparr>], trace = []\<rparr>"
       and xs = "[\<lparr>id' = 4, name = ''b'', host = ''h1''\<rparr>]" and R = up_remote
       and h = "''h''" and nm = "''a''" and n = "''b''"
       and server = "\<lparr>id' = 4, name = ''b'', host = ''h1''\<rparr>"]
  by (simp add: test_up find_Stored find_loop_def)

text \<open>
  The claim as stated fails on a stored list in which two services share a name: the
  deletion removes the last of them and the search then finds the other.
\<close>

theorem delete_duplicate_name_counterexample:
  "findServiceByName ''a'' \<lparr>storage = Stored two_named_a, trace = []\<rparr>
     = Some \<lparr>id' = 1, name = ''a'', host = ''h2''\<rparr>
   \<and> fst (deleteService ''a'' \<lparr>storage = Stored two_named_a, trace = []\<rparr>)
     = Inr (Some \<lparr>id' = 1, name = ''a'', host = ''h2''\<rparr>)
   \<and> findServiceByName ''a''
       (snd (deleteService ''a'' \<lparr>storage = Stored two_named_a, trace = []\<rparr>))
     = Some \<lparr>id' = 0, name = ''a'', host = ''h1''\<rparr>"
  by (simp add: find_Stored deleteService_Stored find_two_named_a)
     (simp add: two_named_a_def find_loop_def)

subsection \<open>Editing\<close>

text \<open>
  Claim C4, as amended. When exactly one stored service has the name and the connection
  test for the new host fails, \<open>editService\<close> deletes that service, adds nothing,
  returns \<^verbatim>\<open>None\<close>, and the name is no longer found.
\<close>

theorem editService_unreachable_loses:
  assumes st: "storage s = Stored xs"
    and one: "filter (\<lambda>x. name x = n) xs = [server]"
    and down: "\<not> fst (testServiceConnection R h s)"
  shows "findServiceByName n s = Some server
       \<and> fst (editService R n h s) = Inr None
       \<and> storage (snd (editService R n h s)) = Stored (remove1 server xs)
       \<and> findServiceByName n (snd (editService R n h s)) = None"
proof -
  have fl: "find_loop n xs = Some server"
    using one by (rule find_loop_unique)
  have f: "findServiceByName n s = Some server"
    by (simp add: find_Stored [OF st] fl)
  let ?s1 = "s\<lparr>storage := Stored (remove1 server xs)\<rparr>"
  have d: "deleteService n s = (Inr (Some server), ?s1)"
    by (simp add: deleteService_Stored [OF st] fl)
  have st1: "storage ?s1 = Stored (remove1 server xs)" by simp
  have gone: "find_loop n (remove1 server xs) = None"
    using one by (simp add: find_loop_filter filter_remove1_unique)
  have down1: "\<not> fst (testServiceConnection R h ?s1)"
    using down by (simp add: test_fst_storage_update)
  have e: "editService R n h s = (Inr None, issue (ListCoverages h) ?s1)"
    by (simp add: editService_def f d addService_Stored [OF st1] gone down1)
  show ?thesis
    by (simp add: f e storage_issue find_issue find_Stored [OF st1] gone)
qed

theorem editService_unreachable_loses_witness:
  "storage \<lparr>storage = Stored [\<lparr>id' = 4, name = ''b'', host = ''h1''\<rparr>], trace = []\<rparr>
     = Stored [\<lparr>id' = 4, name = ''b'', host = ''h1''\<rparr>]
   \<and> filter (\<lambda>x. name x = ''b'') [\<lparr>id' = 4, name = ''b'', host = ''h1''\<rparr>]
       = [\<lparr>id' = 4, name = ''b'', host = ''h1''\<rparr>]
   \<and> \<not> fst (testServiceConnection down_remote ''h2''
        \<lparr>storage = Stored [\<lparr>id' = 4, name = ''b'', host = ''h1''\<rparr>], trace = []\<rparr>)
   \<and> fst (editService down_remote ''b'' ''h2''
        \<lparr>storage = Stored [\<lparr>id' = 4, name = ''b'', host = ''h1''\<rparr>], trace = []\<rparr>) = Inr None
   \<and> storage (snd (editService down_remote ''b'' ''h2''
        \<lparr>storage = Stored [\<lparr>id' = 4, name = ''b'', host = ''h1''\<rparr>], trace = []\<rparr>)) = Stored []
   \<and> findServiceByName ''b'' (snd (editService down_remote ''b'' ''h2''
        \<lparr>storage = Stored [\<lparr>id' = 4, name = ''b'', host = ''h1''\<rparr>], trace = []\<rparr>)) = None"
  using editService_unreachable_loses
    [where s = "\<lparr>storage = Stored [\<lparr>id' = 4, name = ''b'', host = ''h1''\<rparr>], trace = []\<rparr>"
       and xs = "[\<lparr>id' = 4, name = ''b'', host = ''h1''\<rparr>]" and n = "''b''"
       and server = "\<lparr>id' = 4, name = ''b'', host = ''h1''\<rparr>" and R = down_remote
       and h = "''h2''"]
  by (simp add: test_down)

text \<open>
  The claim as stated fails on a stored list in which two services share a name:
  \<open>editService\<close> returns the one that is left, and the name is still found.
\<close>

theorem edit_duplicate_name_counterexample:
  "findServiceByName ''a'' \<lparr>storage = Stored two_named_a, trace = []\<rparr>
     = Some \<lparr>id' = 1, name = ''a'', host = ''h2''\<rparr>
   \<and> \<not> fst (testServiceConnection down_remote ''h3'' \<lparr>storage = Stored two_named_a, trace = []\<rparr>)
   \<and> fst (editService down_remote ''a'' ''h3'' \<lparr>storage = Stored two_named_a, trace = []\<rparr>)
     = Inr (Some \<lparr>id' = 0, name = ''a'', host = ''h1''\<rparr>)
   \<and> findServiceByName ''a''
       (snd (editService down_remote ''a'' ''h3'' \<lparr>storage = Stored two_named_a, trace = []\<rparr>))
     = Some \<lparr>id' = 0, name = ''a'', host = ''h1''\<rparr>"
proof -
  let ?s = "\<lparr>storage = Stored two_named_a, trace = []\<rparr>"
  let ?s1 = "?s\<lparr>storage := Stored [\<lparr>id' = 0, name = ''a'', host = ''h1''\<rparr>]\<rparr>"
  have f: "findServiceByName ''a'' ?s = Some \<lparr>id' = 1, name = ''a'', host = ''h2''\<rparr>"
    by (simp add: find_Stored find_two_named_a)
  have d: "deleteService ''a'' ?s = (Inr (Some \<lparr>id' = 1, name = ''a'', host = ''h2''\<rparr>), ?s1)"
    by (simp add: deleteService_Stored find_two_named_a) (simp add: two_named_a_def)
  have a: "addService down_remote ''a'' ''h3'' ?s1
             = (Inr (Some \<lparr>id' = 0, name = ''a'', host = ''h1''\<rparr>), issue (ListCoverages ''h3'') ?s1)"
    by (simp add: addService_Stored test_down find_loop_def)
  have e: "editService down_remote ''a'' ''h3'' ?s
             = (Inr (Some \<lparr>id' = 0, name = ''a'', host = ''h1''\<rparr>), issue (ListCoverages ''h3'') ?s1)"
    by (simp only: editService_def f d a option.case prod.case sum.case)
  show ?thesis
    by (simp only: f e test_down fst_conv snd_conv find_issue)
       (simp add: find_Stored find_loop_def)
qed

subsection \<open>A file that cannot be read\<close>

text \<open>
  Claim C5, as amended. When the file cannot be opened for reading, \<open>getServiceNames\<close>
  returns the empty list, \<open>getServicesDict\<close> the empty dictionary,
  \<open>findServiceByName\<close> and \<open>deleteService\<close> return \<^verbatim>\<open>None\<close>, and none of
  them changes the state. \<open>addService\<close> returns \<^verbatim>\<open>None\<close> when the host fails
  the connection test or the file cannot be created either; when only the file is
  absent and the host passes the test, it creates the file with the new service, whose
  id is 0, and returns that service.
\<close>

theorem unreadable_file_results:
  assumes "storage s = NoFile \<or> storage s = NoDirectory"
  shows "getServiceNames R s = (Inr [], s)
       \<and> getServicesDict s = Inr Map.empty
       \<and> findServiceByName n s = None
       \<and> deleteService n s = (Inr None, s)
       \<and> fst (addService R nm h s)
           = (if storage s = NoFile \<and> fst (testServiceConnection R h s)
              then Inr (Some \<lparr>id' = 0, name = nm, host = h\<rparr>) else Inr None)
       \<and> storage (snd (addService R nm h s))
           = (if storage s = NoFile \<and> fst (testServiceConnection R h s)
              then Stored [\<lparr>id' = 0, name = nm, host = h\<rparr>] else storage s)"
proof -
  have g: "getServices s = Inl FileNotFoundError"
    using assms by (auto simp: getServices_def)
  have 1: "getServiceNames R s = (Inr [], s)"
    by (simp add: getServiceNames_def g file_error_def)
  have 2: "getServicesDict s = Inr Map.empty"
    by (simp add: getServicesDict_def g file_error_def)
  have 3: "findServiceByName n s = None"
    by (simp add: findServiceByName_def g)
  have 4: "deleteService n s = (Inr None, s)"
    using assms by (rule deleteService_unreadable)
  have 5: "fst (addService R nm h s)
           = (if storage s = NoFile \<and> fst (testServiceConnection R h s)
              then Inr (Some \<lparr>id' = 0, name = nm, host = h\<rparr>) else Inr None)"
    using assms by (auto simp: addService_NoFile addService_NoDirectory)
  have 6: "storage (snd (addService R nm h s))
           = (if storage s = NoFile \<and> fst (testServiceConnection R h s)
              then Stored [\<lparr>id' = 0, name = nm, host = h\<rparr>] else storage s)"
    using assms by (auto simp: addService_NoFile addService_NoDirectory storage_issue)
  from 1 2 3 4 5 6 show ?thesis by blast
qed

theorem unreadable_file_results_witness:
  "storage \<lparr>storage = NoFile, trace = []\<rparr> = NoFile
   \<and> getServiceNames down_remote \<lparr>storage = NoFile, trace = []\<rparr>
       = (Inr [], \<lparr>storage = NoFile, trace = []\<rparr>)
   \<and> getServicesDict \<lparr>storage = NoFile, trace = []\<rparr> = Inr Map.empty
   \<and> findServiceByName ''a'' \<lparr>storage = NoFile, trace = []\<rparr> = None
   \<and> deleteService ''a'' \<lparr>storage = NoFile, trace = []\<rparr>
       = (Inr None, \<lparr>storage = NoFile, trace = []\<rparr>)
   \<and> fst (addService down_remote ''a'' ''h'' \<lparr>storage = NoFile, trace = []\<rparr>) = Inr None"
  using unreadable_file_results
    [where s = "\<lparr>storage = NoFile, trace = []\<rparr>" and R = down_remote and n = "''a''"
       and nm = "''a''" and h = "''h''"]
  by (simp add: test_down)

text \<open>
  The claim as stated fails for \<open>addService\<close> when the file is absent and the host
  passes the connection test.
\<close>

theorem addService_absent_file_counterexample:
  "getServices \<lparr>storage = NoFile, trace = []\<rparr> = Inl FileNotFoundError
   \<and> fst (addService up_remote ''a'' ''h'' \<lparr>storage = NoFile, trace = []\<rparr>)
       = Inr (Some \<lparr>id' = 0, name = ''a'', host = ''h''\<rparr>)
   \<and> storage (snd (addService up_remote ''a'' ''h'' \<lparr>storage = NoFile, trace = []\<rparr>))
       = Stored [\<lparr>id' = 0, name = ''a'', host = ''h''\<rparr>]"
  by (simp add: getServices_def addService_NoFile test_up storage_issue)

subsection \<open>Reprojection\<close>

text \<open>Every record that \<open>transformProjection\<close> returns names the target system.\<close>

lemma transformProjection_Inr_crs:
  "transformProjection P projection la lo = Inr r \<Longrightarrow> crs r = ''EPSG:4326''"
  by (auto simp: transformProjection_def split: sum.splits)

text \<open>
  Claim C9, as amended. For every projection string that the projection library accepts
  and every pair of coordinates that it transforms, \<open>transformProjection\<close> returns a
  record with the coordinates of the library whose field \<open>crs\<close> is the string
  \<^verbatim>\<open>EPSG:4326\<close>; every record that it returns has this \<open>crs\<close>; and when the
  library raises, on the projection string, on the target system or on the
  coordinates, the exception propagates and no record is returned.
\<close>

theorem transformProjection_crs:
  "(\<forall>p1 p2 x y.
       make_proj P projection = Inr p1 \<and> make_proj P ''EPSG:4326'' = Inr p2
       \<and> transform P p1 p2 la lo = Inr (x, y) \<longrightarrow>
       transformProjection P projection la lo = Inr \<lparr>lat = x, long = y, crs = ''EPSG:4326''\<rparr>)
   \<and> (\<forall>r. transformProjection P projection la lo = Inr r \<longrightarrow> crs r = ''EPSG:4326'')
   \<and> (\<forall>e. make_proj P projection = Inl e \<longrightarrow> transformProjection P projection la lo = Inl e)
   \<and> (\<forall>p1 e. make_proj P projection = Inr p1 \<and> make_proj P ''EPSG:4326'' = Inl e \<longrightarrow>
         transformProjection P projection la lo = Inl e)
   \<and> (\<forall>p1 p2 e.
         make_proj P projection = Inr p1 \<and> make_proj P ''EPSG:4326'' = Inr p2
         \<and> transform P p1 p2 la lo = Inl e \<longrightarrow>
         transformProjection P projection la lo = Inl e)"
proof (intro conjI allI impI)
  fix r
  assume "transformProjection P projection la lo = Inr r"
  then show "crs r = ''EPSG:4326''" by (rule transformProjection_Inr_crs)
qed (auto simp: transformProjection_def)

theorem transformProjection_crs_witness:
  "make_proj plain_pyproj ''EPSG:3857'' = Inr ''EPSG:3857''
   \<and> make_proj plain_pyproj ''EPSG:4326'' = Inr ''EPSG:4326''
   \<and> transform plain_pyproj ''EPSG:3857'' ''EPSG:4326'' 1 2 = Inr (1, 2)
   \<and> transformProjection plain_pyproj ''EPSG:3857'' 1 2
       = Inr \<lparr>lat = 1, long = 2, crs = ''EPSG:4326''\<rparr>
   \<and> make_proj strict_pyproj ''no projection'' = Inl LibraryError
   \<and> transformProjection strict_pyproj ''no projection'' 1 2 = Inl LibraryError"
proof -
  have 1: "make_proj plain_pyproj ''EPSG:3857'' = Inr ''EPSG:3857''"
    by (simp add: make_proj_def plain_pyproj_def)
  have 2: "make_proj plain_pyproj ''EPSG:4326'' = Inr ''EPSG:4326''"
    by (simp add: make_proj_def plain_pyproj_def)
  have 3: "transform plain_pyproj ''EPSG:3857'' ''EPSG:4326'' 1 2 = Inr (1, 2)"
    by (simp add: plain_pyproj_def)
  have 4: "make_proj strict_pyproj ''no projection'' = Inl LibraryError"
    by (simp add: make_proj_def strict_pyproj_def)
  show ?thesis
    using transformProjection_crs
        [where P = plain_pyproj and projection = "''EPSG:3857''" and la = 1 and lo = 2]
      transformProjection_crs
        [where P = strict_pyproj and projection = "''no projection''" and la = 1 and lo = 2]
    by (simp add: 1 2 3 4)
qed

text \<open>
  The claim as stated fails on a projection string that the library does not accept:
  the call raises, and no record is returned.
\<close>

theorem transformProjection_rejected_counterexample:
  "from_string strict_pyproj ''no projection'' = Inl LibraryError
   \<and> transformProjection strict_pyproj ''no projection'' 1 2 = Inl LibraryError"
  by (simp add: transformProjection_def make_proj_def strict_pyproj_def)

subsection \<open>The ids of the stored services\<close>

lemma services_of_issue: "services_of (issue r s) = services_of s"
  by (simp add: services_of_def storage_issue)

lemma good_state_issue: "good_state (issue r s) = good_state s"
  by (simp add: good_state_def ids_increasing_def names_distinct_def services_of_issue)

lemma good_state_storage: "storage s' = storage s \<Longrightarrow> good_state s' = good_state s"
  by (simp add: good_state_def ids_increasing_def names_distinct_def services_of_def)

lemma good_state_Stored:
  "storage s = Stored xs \<Longrightarrow>
     good_state s \<longleftrightarrow> sorted_wrt (<) (map id' xs) \<and> distinct (map name xs)"
  by (simp add: good_state_def ids_increasing_def names_distinct_def services_of_def)

lemma good_state_unreadable: "storage s = NoFile \<or> storage s = NoDirectory \<Longrightarrow> good_state s"
  by (auto simp: good_state_def ids_increasing_def names_distinct_def services_of_def)

lemma ids_below_next_id:
  assumes "sorted_wrt (<) (map id' xs)" and "x \<in> set xs"
  shows "id' x < next_id xs"
proof -
  from assms(2) have ne: "xs \<noteq> []" by auto
  have "id' x \<in> set (map id' xs)" using assms(2) by simp
  with assms(1) have "id' x \<le> last (map id' xs)" by (rule strict_le_last)
  also have "last (map id' xs) = id' (last xs)" using ne by (simp add: last_map)
  finally show ?thesis using ne by (simp add: next_id_def)
qed

lemma distinct_map_remove1: "distinct (map f xs) \<Longrightarrow> distinct (map f (remove1 x xs))"
proof (induction xs)
  case Nil
  then show ?case by simp
next
  case (Cons y ys)
  have "f ` set (remove1 x ys) \<subseteq> f ` set ys"
    using set_remove1_subset [of x ys] by blast
  with Cons show ?case by auto
qed

lemma good_append:
  assumes "sorted_wrt (<) (map id' xs)" and "distinct (map name xs)" and "find_loop nm xs = None"
  shows "sorted_wrt (<) (map id' (xs @ [\<lparr>id' = next_id xs, name = nm, host = h\<rparr>]))
       \<and> distinct (map name (xs @ [\<lparr>id' = next_id xs, name = nm, host = h\<rparr>]))"
  using assms by (auto simp: sorted_wrt_append ids_below_next_id find_loop_None_iff)

lemma good_state_addService:
  assumes "good_state s"
  shows "good_state (snd (addService R nm h s))"
proof (cases "storage s")
  case NoDirectory
  then show ?thesis by (simp add: addService_NoDirectory good_state_unreadable storage_issue)
next
  case NoFile
  then show ?thesis
    by (simp add: addService_NoFile good_state_unreadable storage_issue good_state_Stored)
next
  case (Stored xs)
  with assms have g: "sorted_wrt (<) (map id' xs)" "distinct (map name xs)"
    by (simp_all add: good_state_Stored)
  show ?thesis
  proof (cases "fst (testServiceConnection R h s) \<and> find_loop nm xs = None")
    case True
    then have "storage (snd (addService R nm h s))
                 = Stored (xs @ [\<lparr>id' = next_id xs, name = nm, host = h\<rparr>])"
      by (simp add: addService_Stored [OF Stored])
    moreover from True have "find_loop nm xs = None" by simp
    ultimately show ?thesis using good_append [OF g, of nm h] by (simp add: good_state_Stored)
  next
    case False
    then have "storage (snd (addService R nm h s)) = Stored xs"
      by (auto simp: addService_Stored [OF Stored] storage_issue Stored)
    then show ?thesis using g by (simp add: good_state_Stored)
  qed
qed

lemma good_state_deleteService:
  assumes "good_state s"
  shows "good_state (snd (deleteService n s))"
proof (cases "storage s")
  case NoDirectory
  then show ?thesis using assms by (simp add: deleteService_unreadable)
next
  case NoFile
  then show ?thesis using assms by (simp add: deleteService_unreadable)
next
  case (Stored xs)
  with assms have g: "sorted_wrt (<) (map id' xs)" "distinct (map name xs)"
    by (simp_all add: good_state_Stored)
  show ?thesis
  proof (cases "find_loop n xs")
    case None
    then show ?thesis using assms by (simp add: deleteService_Stored [OF Stored])
  next
    case (Some srv)
    then have "storage (snd (deleteService n s)) = Stored (remove1 srv xs)"
      by (simp add: deleteService_Stored [OF Stored])
    then show ?thesis
      using g by (simp add: good_state_Stored sorted_wrt_map_remove1 distinct_map_remove1)
  qed
qed

lemma deleteService_no_exception: "\<exists>r. fst (deleteService n s) = Inr r"
  by (cases "storage s")
     (auto simp: deleteService_unreadable deleteService_Stored split: option.splits)

lemma addService_no_exception: "\<exists>r. fst (addService R nm h s) = Inr r"
  by (cases "storage s")
     (auto simp: addService_NoDirectory addService_NoFile addService_Stored)

lemma editService_eq:
  "editService R n h s = addService R n h (snd (deleteService n s))"
proof (cases "findServiceByName n s")
  case None
  then show ?thesis by (simp add: editService_def deleteService_def)
next
  case (Some srv)
  obtain r where "fst (deleteService n s) = Inr r"
    using deleteService_no_exception by blast
  then obtain s1 where "deleteService n s = (Inr r, s1)"
    by (cases "deleteService n s") simp
  then show ?thesis using Some by (simp add: editService_def)
qed

lemma good_state_editService:
  "good_state s \<Longrightarrow> good_state (snd (editService R n h s))"
  by (simp add: editService_eq good_state_addService good_state_deleteService)

lemma names_loop_storage: "storage (snd (names_loop R xs acc s)) = storage s"
proof (induction xs arbitrary: acc s)
  case Nil
  then show ?case by simp
next
  case (Cons x xs)
  show ?case
    by (subst names_loop.simps, subst test_eq)
       (simp add: Cons.IH storage_issue split: bool.splits)
qed

lemma getServiceNames_storage: "storage (snd (getServiceNames R s)) = storage s"
  by (simp add: getServiceNames_def names_loop_storage split: sum.splits prod.splits)
     (metis names_loop_storage snd_conv)

lemma good_state_write_empty:
  "write_services [] s = Inr s' \<Longrightarrow> good_state s'"
  by (cases "storage s") (auto simp: write_services_def good_state_Stored)

lemma good_state_reset:
  assumes "good_state s"
  shows "good_state (snd (resetAvailableServices R wtss_host s))"
proof -
  let ?a = "addService R ''Brazil Data Cube'' wtss_host s"
  obtain r where r: "fst ?a = Inr r" using addService_no_exception by blast
  then obtain s1 where a: "?a = (Inr r, s1)" by (cases ?a) simp
  have "good_state (snd ?a)" using assms by (rule good_state_addService)
  then have g1: "good_state s1" by (simp add: a)
  have "good_state (snd (getServiceNames R s1))"
    using g1 good_state_storage [OF getServiceNames_storage] by blast
  then have g2: "\<And>x s2. getServiceNames R s1 = (x, s2) \<Longrightarrow> good_state s2" by simp
  show ?thesis
    by (auto simp: resetAvailableServices_def a g1 dest: g2 good_state_write_empty
        split: prod.splits sum.splits)
qed

lemma good_state_load_loop:
  "good_state s \<Longrightarrow> good_state (snd (snd (load_loop R xs servers s)))"
proof (induction xs arbitrary: servers s)
  case Nil
  then show ?case by simp
next
  case (Cons x xs)
  let ?s1 = "issue (ListCoverages (host x)) s"
  have g1: "good_state ?s1" using Cons.prems by (simp add: good_state_issue)
  have g2: "good_state (issue (ListCoverages (host x)) ?s1)" using g1 by (simp add: good_state_issue)
  show ?case
  proof (cases "fst (testServiceConnection R (host x) s)")
    case True
    then have t: "testServiceConnection R (host x) s = (True, ?s1)"
      using test_eq [of R "host x" s] by simp
    show ?thesis
      by (simp add: t client_coverages_def g2 Cons.IH split: sum.splits)
  next
    case False
    then have t: "testServiceConnection R (host x) s = (False, ?s1)"
      using test_eq [of R "host x" s] by simp
    obtain r s2 where d: "deleteService (name x) ?s1 = (r, s2)"
      by (cases "deleteService (name x) ?s1")
    have "good_state (snd (deleteService (name x) ?s1))" using g1 by (rule good_state_deleteService)
    then have g3: "good_state s2" by (simp add: d)
    show ?thesis
      by (simp add: t d g3 Cons.IH split: sum.splits)
  qed
qed

lemma good_state_loadServices:
  assumes "good_state s"
  shows "good_state (snd (loadServices R s))"
proof -
  have "\<And>xs e servers s1. load_loop R xs [] s = (e, servers, s1) \<Longrightarrow> good_state s1"
    using good_state_load_loop [OF assms, of R _ "[]"] by (metis snd_conv)
  then show ?thesis
    using assms by (auto simp: loadServices_def split: sum.splits prod.splits option.splits)
qed

lemma reachable_good_state: "reachable R wtss_host s \<Longrightarrow> good_state s"
proof (induction rule: reachable.induct)
  case (empty_list s)
  then show ?case by (simp add: good_state_Stored)
next
  case (no_list s)
  then show ?case by (rule good_state_unreadable)
next
  case (reset s)
  then show ?case by (simp add: good_state_reset)
next
  case (add s nm h)
  then show ?case by (simp add: good_state_addService)
next
  case (delete s n)
  then show ?case by (simp add: good_state_deleteService)
next
  case (edit s n h)
  then show ?case by (simp add: good_state_editService)
next
  case (load s)
  then show ?case by (simp add: good_state_loadServices)
next
  case (request s r)
  then show ?case by (simp add: good_state_issue)
qed

lemma deleteService_removes_one:
  assumes "n \<in> name ` set (services_of s)"
  shows "\<exists>ys server zs. services_of s = ys @ server # zs \<and> name server = n
           \<and> services_of (snd (deleteService n s)) = ys @ zs"
proof (cases "storage s")
  case NoDirectory
  with assms show ?thesis by (simp add: services_of_def)
next
  case NoFile
  with assms show ?thesis by (simp add: services_of_def)
next
  case (Stored xs)
  then have sv: "services_of s = xs" by (simp add: services_of_def)
  with assms have "find_loop n xs = Some (last (filter (\<lambda>x. name x = n) xs))"
    by (simp add: find_loop_registered)
  then obtain server where fl: "find_loop n xs = Some server" by blast
  then have mem: "server \<in> set xs" and nm: "name server = n"
    by (simp_all add: find_loop_Some_mem)
  from mem obtain ys zs where split: "xs = ys @ server # zs" and first: "server \<notin> set ys"
    by (meson split_list_first)
  have "storage (snd (deleteService n s)) = Stored (remove1 server xs)"
    by (simp add: deleteService_Stored [OF Stored] fl)
  then have "services_of (snd (deleteService n s)) = ys @ zs"
    using split first by (simp add: services_of_def remove1_append)
  with sv split nm show ?thesis by blast
qed

lemma addService_appends:
  assumes "storage s \<noteq> NoDirectory" and "fst (testServiceConnection R h s)"
    and "nm \<notin> name ` set (services_of s)"
  shows "services_of (snd (addService R nm h s))
           = services_of s @
               [\<lparr>id' = (if services_of s = [] then 0 else id' (last (services_of s)) + 1),
                 name = nm, host = h\<rparr>]"
proof (cases "storage s")
  case NoDirectory
  with assms(1) show ?thesis by simp
next
  case NoFile
  then show ?thesis
    using assms(2) by (simp add: addService_NoFile services_of_def)
next
  case (Stored xs)
  then have sv: "services_of s = xs" by (simp add: services_of_def)
  with assms(3) have fl: "find_loop nm xs = None" by (simp add: find_loop_None_iff)
  have "storage (snd (addService R nm h s))
          = Stored (xs @ [\<lparr>id' = next_id xs, name = nm, host = h\<rparr>])"
    using assms(2) by (simp add: addService_Stored [OF Stored] fl)
  then have "services_of (snd (addService R nm h s))
          = xs @ [\<lparr>id' = next_id xs, name = nm, host = h\<rparr>]"
    by (simp add: services_of_def)
  then show ?thesis by (simp add: sv next_id_def)
qed

text \<open>
  Claim C8. In every state reached from an empty list, or from no file, by
  \<open>addService\<close>, \<open>deleteService\<close>, \<open>editService\<close>, the reset to the default list,
  \<open>loadServices\<close> and the query operations, the ids of the stored services increase
  strictly along the list, hence no two are equal. In every state, a service that
  \<open>addService\<close> registers is appended with the id of the last stored service plus one,
  or 0 on the empty list, and \<open>deleteService\<close> of a stored name removes one service
  of that name and keeps the order of the others.
\<close>

theorem reachable_ids_increasing:
  "(reachable R wtss_host s \<longrightarrow>
      sorted_wrt (<) (map id' (services_of s)) \<and> distinct (map id' (services_of s)))
   \<and> (storage s \<noteq> NoDirectory \<and> fst (testServiceConnection R h s)
       \<and> nm \<notin> name ` set (services_of s) \<longrightarrow>
      services_of (snd (addService R nm h s))
        = services_of s @
            [\<lparr>id' = (if services_of s = [] then 0 else id' (last (services_of s)) + 1),
              name = nm, host = h\<rparr>])
   \<and> (n \<in> name ` set (services_of s) \<longrightarrow>
      (\<exists>ys server zs. services_of s = ys @ server # zs \<and> name server = n
         \<and> services_of (snd (deleteService n s)) = ys @ zs))"
proof (intro conjI impI)
  assume "reachable R wtss_host s"
  then have "good_state s" by (rule reachable_good_state)
  then have sorted: "sorted_wrt (<) (map id' (services_of s))"
    by (simp add: good_state_def ids_increasing_def)
  then show "sorted_wrt (<) (map id' (services_of s))" .
  from sorted show "distinct (map id' (services_of s))" by (simp add: strict_sorted_iff)
next
  assume "storage s \<noteq> NoDirectory \<and> fst (testServiceConnection R h s)
            \<and> nm \<notin> name ` set (services_of s)"
  then show "services_of (snd (addService R nm h s))
        = services_of s @
            [\<lparr>id' = (if services_of s = [] then 0 else id' (last (services_of s)) + 1),
              name = nm, host = h\<rparr>]"
    by (simp add: addService_appends)
next
  assume "n \<in> name ` set (services_of s)"
  then show "\<exists>ys server zs. services_of s = ys @ server # zs \<and> name server = n
         \<and> services_of (snd (deleteService n s)) = ys @ zs"
    by (rule deleteService_removes_one)
qed

theorem reachable_ids_increasing_witness:
  "services_of after_two_adds
     = [\<lparr>id' = 0, name = ''a'', host = ''h1''\<rparr>, \<lparr>id' = 1, name = ''b'', host = ''h2''\<rparr>]
   \<and> ''a'' \<in> name ` set (services_of after_two_adds)
   \<and> services_of (snd (deleteService ''a'' after_two_adds))
       = [\<lparr>id' = 1, name = ''b'', host = ''h2''\<rparr>]
   \<and> storage (snd (deleteService ''a'' after_two_adds)) \<noteq> NoDirectory
   \<and> fst (testServiceConnection up_remote ''h3'' (snd (deleteService ''a'' after_two_adds)))
   \<and> ''c'' \<notin> name ` set (services_of (snd (deleteService ''a'' after_two_adds)))
   \<and> services_of (snd (addService up_remote ''c'' ''h3'' (snd (deleteService ''a'' after_two_adds))))
       = [\<lparr>id' = 1, name = ''b'', host = ''h2''\<rparr>, \<lparr>id' = 2, name = ''c'', host = ''h3''\<rparr>]
   \<and> reachable up_remote ''w'' after_edit
   \<and> services_of after_edit
       = [\<lparr>id' = 2, name = ''c'', host = ''h3''\<rparr>, \<lparr>id' = 3, name = ''b'', host = ''h9''\<rparr>]
   \<and> sorted_wrt (<) (map id' (services_of after_edit))
   \<and> distinct (map id' (services_of after_edit))"
proof -
  let ?s0 = "\<lparr>storage = Stored [], trace = []\<rparr>"
  let ?s1 = "snd (addService up_remote ''a'' ''h1'' ?s0)"
  let ?s3 = "snd (deleteService ''a'' after_two_adds)"
  let ?s4 = "snd (addService up_remote ''c'' ''h3'' ?s3)"
  let ?s5 = "snd (deleteService ''b'' ?s4)"
  have r0: "reachable up_remote ''w'' ?s0"
    by (rule reachable.empty_list) simp
  have r2: "reachable up_remote ''w'' after_two_adds"
    unfolding after_two_adds_def by (rule reachable.add, rule reachable.add, rule r0)
  have r5: "reachable up_remote ''w'' after_edit"
    unfolding after_edit_def
    by (rule reachable.edit, rule reachable.add, rule reachable.delete, rule r2)
  have st1: "storage ?s1 = Stored [\<lparr>id' = 0, name = ''a'', host = ''h1''\<rparr>]"
    by (simp add: addService_Stored test_up find_loop_Nil next_id_def)
  have st2: "storage after_two_adds
      = Stored [\<lparr>id' = 0, name = ''a'', host = ''h1''\<rparr>, \<lparr>id' = 1, name = ''b'', host = ''h2''\<rparr>]"
    unfolding after_two_adds_def
    by (simp add: addService_Stored [OF st1] test_up find_loop_def next_id_def)
  have st3: "storage ?s3 = Stored [\<lparr>id' = 1, name = ''b'', host = ''h2''\<rparr>]"
    by (simp add: deleteService_Stored [OF st2] find_loop_def)
  have st4: "storage ?s4
      = Stored [\<lparr>id' = 1, name = ''b'', host = ''h2''\<rparr>, \<lparr>id' = 2, name = ''c'', host = ''h3''\<rparr>]"
    by (simp add: addService_Stored [OF st3] test_up find_loop_def next_id_def)
  have st5: "storage ?s5 = Stored [\<lparr>id' = 2, name = ''c'', host = ''h3''\<rparr>]"
    by (simp add: deleteService_Stored [OF st4] find_loop_def)
  have st6: "storage after_edit
      = Stored [\<lparr>id' = 2, name = ''c'', host = ''h3''\<rparr>, \<lparr>id' = 3, name = ''b'', host = ''h9''\<rparr>]"
    unfolding after_edit_def
    by (simp add: editService_eq addService_Stored [OF st5] test_up find_loop_def next_id_def)
  have sv: "services_of after_two_adds
      = [\<lparr>id' = 0, name = ''a'', host = ''h1''\<rparr>, \<lparr>id' = 1, name = ''b'', host = ''h2''\<rparr>]"
    "services_of ?s3 = [\<lparr>id' = 1, name = ''b'', host = ''h2''\<rparr>]"
    "services_of after_edit
      = [\<lparr>id' = 2, name = ''c'', host = ''h3''\<rparr>, \<lparr>id' = 3, name = ''b'', host = ''h9''\<rparr>]"
    by (simp_all add: services_of_def st2 st3 st6)
  have w: "storage ?s3 \<noteq> NoDirectory" by (simp add: st3)
  show ?thesis
    using reachable_ids_increasing
        [where R = up_remote and wtss_host = "''w''" and s = after_edit]
      reachable_ids_increasing
        [where R = up_remote and s = ?s3 and h = "''h3''" and nm = "''c''"]
      reachable_ids_increasing
        [where R = up_remote and s = after_two_adds and n = "''a''"]
    by (simp add: r5 sv w test_up)
qed

text \<open>The names of the stored services differ in every such state.\<close>

lemma reachable_names_distinct:
  "reachable R wtss_host s \<Longrightarrow> distinct (map name (services_of s))"
  using reachable_good_state [of R wtss_host s] by (simp add: good_state_def names_distinct_def)

subsection \<open>The query operations\<close>

lemma clock_issue: "clock (issue r s) = Suc (clock s)"
  by (simp add: clock_def issue_def)

lemma test_False:
  "\<not> fst (testServiceConnection R h s) \<Longrightarrow>
     testServiceConnection R h s = (False, issue (ListCoverages h) s)"
  using test_eq [of R h s] by simp

lemma test_True:
  "fst (testServiceConnection R h s) \<Longrightarrow>
     testServiceConnection R h s = (True, issue (ListCoverages h) s)"
  using test_eq [of R h s] by simp

lemma productTimeSeries_down:
  assumes f: "findServiceByName service_name s = Some server"
    and down: "\<not> fst (testServiceConnection R (host server) s)"
  shows "productTimeSeries R service_name product bands lo la sd ed s =
     (case requests_get R (Suc (clock s)) (ts_url (host server)) (ts_params product bands lo la sd ed) of
        Inl e \<Rightarrow> Inl e
      | Inr response \<Rightarrow>
          if status_code response = 200 then
            (case json response of
               Inl e \<Rightarrow> Inl e
             | Inr doc \<Rightarrow>
                 (case parse_timeline (strptime R) (timeline doc) of
                    Inl e \<Rightarrow> Inl e
                  | Inr dates \<Rightarrow> Inr (Some (DirectSeries \<lparr>timeline = dates, payload = payload doc\<rparr>))))
          else Inr None,
      issue (HttpGet (ts_url (host server)) (ts_params product bands lo la sd ed))
        (issue (ListCoverages (host server)) s))"
  by (simp add: productTimeSeries_def f test_False [OF down] find_issue http_get_def clock_issue
      split: sum.splits)

lemma productTimeSeries_up:
  assumes f: "findServiceByName service_name s = Some server"
    and up: "fst (testServiceConnection R (host server) s)"
  shows "productTimeSeries R service_name product bands lo la sd ed s =
     (case wtss_getitem R (Suc (clock s)) (host server) product of
        Inl e \<Rightarrow> (Inr None, issue (DescribeCoverage (host server) product)
                     (issue (ListCoverages (host server)) s))
      | Inr cov \<Rightarrow>
          (case wtss_ts_check R cov (ts_query bands lo la sd ed) of
             Some e \<Rightarrow> (Inr None, issue (DescribeCoverage (host server) product)
                          (issue (ListCoverages (host server)) s))
           | None \<Rightarrow>
               (case wtss_ts R (Suc (Suc (clock s))) cov (ts_query bands lo la sd ed) of
                  Inl e \<Rightarrow> Inr None
                | Inr time_series \<Rightarrow> Inr (Some (ClientSeries time_series)),
                issue (TimeSeries (host server) product (ts_query bands lo la sd ed))
                  (issue (DescribeCoverage (host server) product)
                     (issue (ListCoverages (host server)) s)))))"
  by (simp add: productTimeSeries_def f test_True [OF up] client_getitem_def client_ts_def
      clock_issue split: sum.splits option.splits)

lemma listProducts_eq:
  assumes f: "findServiceByName service_name s = Some server"
  shows "listProducts R service_name s =
     (if fst (testServiceConnection R (host server) s)
      then (wtss_coverages R (Suc (clock s)) (host server),
            issue (ListCoverages (host server)) (issue (ListCoverages (host server)) s))
      else (Inr [], issue (ListCoverages (host server)) s))"
proof (cases "fst (testServiceConnection R (host server) s)")
  case True
  then show ?thesis
    by (simp add: listProducts_def f test_True [OF True] client_coverages_def clock_issue)
next
  case False
  then show ?thesis
    by (simp add: listProducts_def f test_False [OF False])
qed

lemma productDescription_eq:
  assumes f: "findServiceByName service_name s = Some server"
  shows "productDescription R service_name product s =
     (if fst (testServiceConnection R (host server) s)
      then (case wtss_getitem R (Suc (clock s)) (host server) product of
              Inl e \<Rightarrow> Inl e | Inr cov \<Rightarrow> Inr (Coverage cov),
            issue (DescribeCoverage (host server) product) (issue (ListCoverages (host server)) s))
      else (Inr EmptyDict, issue (ListCoverages (host server)) s))"
proof (cases "fst (testServiceConnection R (host server) s)")
  case True
  then show ?thesis
    by (simp add: productDescription_def f test_True [OF True] client_getitem_def clock_issue
        split: sum.splits)
next
  case False
  then show ?thesis
    by (simp add: productDescription_def f test_False [OF False])
qed

lemma find_one_named_b:
  "findServiceByName ''b'' one_named_b = Some \<lparr>id' = 4, name = ''b'', host = ''h1''\<rparr>"
  by (simp add: one_named_b_def find_Stored find_loop_def)

text \<open>
  Claim C1, as amended. For a registered name: when the connection test fails,
  \<open>listProducts\<close> returns the empty list and \<open>productDescription\<close> the empty
  dictionary, and \<open>productTimeSeries\<close> returns \<^verbatim>\<open>None\<close> if the direct request
  answers with a status other than 200; when the test succeeds and the client library
  raises on the coverage or on its time series (on the request, or on the check of the
  arguments before it), \<open>productTimeSeries\<close> returns \<^verbatim>\<open>None\<close>.
\<close>

theorem unavailable_service_results:
  assumes f: "findServiceByName service_name s = Some server"
  shows "(\<not> fst (testServiceConnection R (host server) s) \<longrightarrow>
            fst (listProducts R service_name s) = Inr []
          \<and> fst (productDescription R service_name product s) = Inr EmptyDict
          \<and> (\<forall>response.
                requests_get R (Suc (clock s)) (ts_url (host server))
                  (ts_params product bands lo la sd ed) = Inr response
                \<and> status_code response \<noteq> 200 \<longrightarrow>
                fst (productTimeSeries R service_name product bands lo la sd ed s) = Inr None))
       \<and> (fst (testServiceConnection R (host server) s)
          \<and> ((\<exists>e. wtss_getitem R (Suc (clock s)) (host server) product = Inl e)
             \<or> (\<exists>cov e. wtss_getitem R (Suc (clock s)) (host server) product = Inr cov
                   \<and> wtss_ts R (Suc (Suc (clock s))) cov (ts_query bands lo la sd ed) = Inl e)
             \<or> (\<exists>cov e. wtss_getitem R (Suc (clock s)) (host server) product = Inr cov
                   \<and> wtss_ts_check R cov (ts_query bands lo la sd ed) = Some e))
          \<longrightarrow> fst (productTimeSeries R service_name product bands lo la sd ed s) = Inr None)"
proof (intro conjI impI allI)
  assume down: "\<not> fst (testServiceConnection R (host server) s)"
  show "fst (listProducts R service_name s) = Inr []"
    by (simp add: listProducts_eq [OF f] down)
  show "fst (productDescription R service_name product s) = Inr EmptyDict"
    by (simp add: productDescription_eq [OF f] down)
  fix response
  assume "requests_get R (Suc (clock s)) (ts_url (host server))
            (ts_params product bands lo la sd ed) = Inr response
          \<and> status_code response \<noteq> 200"
  then show "fst (productTimeSeries R service_name product bands lo la sd ed s) = Inr None"
    by (simp add: productTimeSeries_down [OF f down])
next
  assume a: "fst (testServiceConnection R (host server) s)
          \<and> ((\<exists>e. wtss_getitem R (Suc (clock s)) (host server) product = Inl e)
             \<or> (\<exists>cov e. wtss_getitem R (Suc (clock s)) (host server) product = Inr cov
                   \<and> wtss_ts R (Suc (Suc (clock s))) cov (ts_query bands lo la sd ed) = Inl e)
             \<or> (\<exists>cov e. wtss_getitem R (Suc (clock s)) (host server) product = Inr cov
                   \<and> wtss_ts_check R cov (ts_query bands lo la sd ed) = Some e))"
  then have up: "fst (testServiceConnection R (host server) s)" by simp
  from a show "fst (productTimeSeries R service_name product bands lo la sd ed s) = Inr None"
    by (auto simp: productTimeSeries_up [OF f up] split: option.splits)
qed

theorem unavailable_service_results_witness:
  "findServiceByName ''b'' one_named_b = Some \<lparr>id' = 4, name = ''b'', host = ''h1''\<rparr>
   \<and> \<not> fst (testServiceConnection not_found_remote ''h1'' one_named_b)
   \<and> fst (listProducts not_found_remote ''b'' one_named_b) = Inr []
   \<and> fst (productDescription not_found_remote ''b'' ''p'' one_named_b) = Inr EmptyDict
   \<and> requests_get not_found_remote (Suc (clock one_named_b)) (ts_url ''h1'')
         (ts_params ''p'' [''ndvi''] 0 0 ''2020-01-01'' ''2020-12-31'')
       = Inr \<lparr>status_code = 404, json = Inl ValueError\<rparr>
   \<and> fst (productTimeSeries not_found_remote ''b'' ''p'' [''ndvi''] 0 0
            ''2020-01-01'' ''2020-12-31'' one_named_b) = Inr None
   \<and> fst (testServiceConnection no_product_remote ''h1'' one_named_b)
   \<and> wtss_getitem no_product_remote (Suc (clock one_named_b)) ''h1'' ''p'' = Inl KeyError
   \<and> fst (productTimeSeries no_product_remote ''b'' ''p'' [''ndvi''] 0 0
            ''2020-01-01'' ''2020-12-31'' one_named_b) = Inr None"
proof -
  have d: "\<not> fst (testServiceConnection not_found_remote ''h1'' one_named_b)"
    by (simp add: test_fst not_found_remote_def)
  have u: "fst (testServiceConnection no_product_remote ''h1'' one_named_b)"
    by (simp add: test_fst no_product_remote_def)
  have r: "requests_get not_found_remote (Suc (clock one_named_b)) (ts_url ''h1'')
             (ts_params ''p'' [''ndvi''] 0 0 ''2020-01-01'' ''2020-12-31'')
           = Inr \<lparr>status_code = 404, json = Inl ValueError\<rparr>"
    by (simp add: not_found_remote_def)
  have g: "wtss_getitem no_product_remote (Suc (clock one_named_b)) ''h1'' ''p'' = Inl KeyError"
    by (simp add: no_product_remote_def)
  show ?thesis
    using unavailable_service_results
        [OF find_one_named_b, where R = not_found_remote and product = "''p''"
           and bands = "[''ndvi'']" and lo = 0 and la = 0 and sd = "''2020-01-01''"
           and ed = "''2020-12-31''"]
      unavailable_service_results
        [OF find_one_named_b, where R = no_product_remote and product = "''p''"
           and bands = "[''ndvi'']" and lo = 0 and la = 0 and sd = "''2020-01-01''"
           and ed = "''2020-12-31''"]
    by (simp add: find_one_named_b d u r g)
qed

text \<open>
  The claim as stated fails for \<open>productTimeSeries\<close>: when the connection test fails
  and the direct request raises, the exception propagates.
\<close>

theorem productTimeSeries_raises_counterexample:
  "findServiceByName ''b'' one_named_b = Some \<lparr>id' = 4, name = ''b'', host = ''h1''\<rparr>
   \<and> \<not> fst (testServiceConnection down_remote ''h1'' one_named_b)
   \<and> fst (productTimeSeries down_remote ''b'' ''p'' [''ndvi''] 0 0 ''2020-01-01'' ''2020-12-31''
            one_named_b) = Inl ConnectionError"
proof -
  have d: "\<not> fst (testServiceConnection down_remote
              (host \<lparr>id' = 4, name = ''b'', host = ''h1''\<rparr>) one_named_b)"
    by (rule test_down)
  show ?thesis
    by (simp add: find_one_named_b test_down productTimeSeries_down [OF find_one_named_b d])
       (simp add: down_remote_def)
qed

text \<open>
  Claim C3, as amended. For a registered name no query operation repeats a request. Each
  issues the request of the connection test and then: \<open>listProducts\<close> and
  \<open>productDescription\<close> one more request when the test succeeds and none when it
  fails; \<open>productTimeSeries\<close>, when the test succeeds, the request for the coverage
  and, when that succeeds and the client accepts the arguments, the request for its time
  series; when the test fails, exactly one direct HTTP request, and it returns
  \<^verbatim>\<open>None\<close> when that request answers with a status other than 200.
\<close>

theorem query_requests:
  assumes f: "findServiceByName service_name s = Some server"
  shows "trace (snd (listProducts R service_name s))
           = trace s @ (if fst (testServiceConnection R (host server) s)
                        then [ListCoverages (host server), ListCoverages (host server)]
                        else [ListCoverages (host server)])
       \<and> trace (snd (productDescription R service_name product s))
           = trace s @ (if fst (testServiceConnection R (host server) s)
                        then [ListCoverages (host server), DescribeCoverage (host server) product]
                        else [ListCoverages (host server)])
       \<and> trace (snd (productTimeSeries R service_name product bands lo la sd ed s))
           = trace s @
             (if fst (testServiceConnection R (host server) s)
              then (case wtss_getitem R (Suc (clock s)) (host server) product of
                      Inl e \<Rightarrow> [ListCoverages (host server), DescribeCoverage (host server) product]
                    | Inr cov \<Rightarrow>
                        (case wtss_ts_check R cov (ts_query bands lo la sd ed) of
                           Some e \<Rightarrow>
                             [ListCoverages (host server), DescribeCoverage (host server) product]
                         | None \<Rightarrow>
                             [ListCoverages (host server), DescribeCoverage (host server) product,
                              TimeSeries (host server) product (ts_query bands lo la sd ed)]))
              else [ListCoverages (host server),
                    HttpGet (ts_url (host server)) (ts_params product bands lo la sd ed)])
       \<and> (\<forall>response.
             \<not> fst (testServiceConnection R (host server) s)
             \<and> requests_get R (Suc (clock s)) (ts_url (host server))
                 (ts_params product bands lo la sd ed) = Inr response
             \<and> status_code response \<noteq> 200 \<longrightarrow>
             fst (productTimeSeries R service_name product bands lo la sd ed s) = Inr None)"
proof (cases "fst (testServiceConnection R (host server) s)")
  case True
  show ?thesis
    by (simp add: listProducts_eq [OF f] productDescription_eq [OF f]
        productTimeSeries_up [OF f True] True trace_issue split: sum.splits option.splits)
next
  case False
  show ?thesis
    by (simp add: listProducts_eq [OF f] productDescription_eq [OF f]
        productTimeSeries_down [OF f False] False trace_issue)
qed

theorem query_requests_witness:
  "findServiceByName ''b'' one_named_b = Some \<lparr>id' = 4, name = ''b'', host = ''h1''\<rparr>
   \<and> trace (snd (listProducts up_remote ''b'' one_named_b))
       = [ListCoverages ''h1'', ListCoverages ''h1'']
   \<and> trace (snd (productDescription up_remote ''b'' ''p'' one_named_b))
       = [ListCoverages ''h1'', DescribeCoverage ''h1'' ''p'']
   \<and> trace (snd (productTimeSeries up_remote ''b'' ''p'' [''ndvi''] 0 0
                   ''2020-01-01'' ''2020-12-31'' one_named_b))
       = [ListCoverages ''h1'', DescribeCoverage ''h1'' ''p'',
          TimeSeries ''h1'' ''p'' (ts_query [''ndvi''] 0 0 ''2020-01-01'' ''2020-12-31'')]
   \<and> trace (snd (productTimeSeries refusing_remote ''b'' ''p'' [''ndvi''] 0 100
                   ''2020-01-01'' ''2020-12-31'' one_named_b))
       = [ListCoverages ''h1'', DescribeCoverage ''h1'' ''p'']
   \<and> trace (snd (listProducts down_remote ''b'' one_named_b)) = [ListCoverages ''h1'']
   \<and> trace (snd (productTimeSeries not_found_remote ''b'' ''p'' [''ndvi''] 0 0
                   ''2020-01-01'' ''2020-12-31'' one_named_b))
       = [ListCoverages ''h1'',
          HttpGet (ts_url ''h1'') (ts_params ''p'' [''ndvi''] 0 0 ''2020-01-01'' ''2020-12-31'')]
   \<and> \<not> fst (testServiceConnection not_found_remote ''h1'' one_named_b)
   \<and> status_code \<lparr>status_code = 404, json = Inl ValueError\<rparr> \<noteq> 200
   \<and> fst (productTimeSeries not_found_remote ''b'' ''p'' [''ndvi''] 0 0
            ''2020-01-01'' ''2020-12-31'' one_named_b) = Inr None"
proof -
  have t: "trace one_named_b = []" by (simp add: one_named_b_def)
  have g: "wtss_getitem up_remote (Suc (clock one_named_b)) ''h1'' ''p'' = Inr ()"
    "wtss_ts_check up_remote () (ts_query [''ndvi''] 0 0 ''2020-01-01'' ''2020-12-31'') = None"
    by (simp_all add: up_remote_def)
  have g': "wtss_getitem refusing_remote (Suc (clock one_named_b)) ''h1'' ''p'' = Inr ()"
    "wtss_ts_check refusing_remote () (ts_query [''ndvi''] 0 100 ''2020-01-01'' ''2020-12-31'')
       = Some ValueError"
    by (simp_all add: refusing_remote_def)
  have u: "fst (testServiceConnection refusing_remote ''h1'' one_named_b)"
    by (simp add: test_fst refusing_remote_def)
  have d: "\<not> fst (testServiceConnection not_found_remote ''h1'' one_named_b)"
    by (simp add: test_fst not_found_remote_def)
  have r: "requests_get not_found_remote (Suc (clock one_named_b)) (ts_url ''h1'')
             (ts_params ''p'' [''ndvi''] 0 0 ''2020-01-01'' ''2020-12-31'')
           = Inr \<lparr>status_code = 404, json = Inl ValueError\<rparr>"
    by (simp add: not_found_remote_def)
  show ?thesis
    using query_requests
        [OF find_one_named_b, where R = up_remote and product = "''p''"
           and bands = "[''ndvi'']" and lo = 0 and la = 0 and sd = "''2020-01-01''"
           and ed = "''2020-12-31''"]
      query_requests
        [OF find_one_named_b, where R = refusing_remote and product = "''p''"
           and bands = "[''ndvi'']" and lo = 0 and la = 100 and sd = "''2020-01-01''"
           and ed = "''2020-12-31''"]
      query_requests
        [OF find_one_named_b, where R = down_remote and product = "''p''"
           and bands = "[''ndvi'']" and lo = 0 and la = 0 and sd = "''2020-01-01''"
           and ed = "''2020-12-31''"]
      query_requests
        [OF find_one_named_b, where R = not_found_remote and product = "''p''"
           and bands = "[''ndvi'']" and lo = 0 and la = 0 and sd = "''2020-01-01''"
           and ed = "''2020-12-31''"]
    by (simp add: find_one_named_b test_up test_down t g g' u d r)
qed

text \<open>
  The claim as stated fails: after a failed connection test \<open>productTimeSeries\<close>
  issues the direct request, and returns its document when the status is 200.
\<close>

theorem productTimeSeries_fallback_counterexample:
  "findServiceByName ''b'' one_named_b = Some \<lparr>id' = 4, name = ''b'', host = ''h1''\<rparr>
   \<and> trace one_named_b = []
   \<and> \<not> fst (testServiceConnection direct_only_remote ''h1'' one_named_b)
   \<and> trace (snd (productTimeSeries direct_only_remote ''b'' ''p'' [''ndvi''] 0 0
                   ''2020-01-01'' ''2020-12-31'' one_named_b))
       = [ListCoverages ''h1'',
          HttpGet ''h1/wtss/time_series''
            [(''coverage'', PStr ''p''), (''attributes'', PStr ''ndvi''),
             (''longitude'', PNum 0), (''latitude'', PNum 0),
             (''start_date'', PStr ''2020-01-01''), (''end_date'', PStr ''2020-12-31'')]]
   \<and> fst (productTimeSeries direct_only_remote ''b'' ''p'' [''ndvi''] 0 0
            ''2020-01-01'' ''2020-12-31'' one_named_b)
       = Inr (Some (DirectSeries \<lparr>timeline = [], payload = ''doc''\<rparr>))"
proof -
  have d0: "\<not> fst (testServiceConnection direct_only_remote ''h1'' one_named_b)"
    by (simp add: test_fst direct_only_remote_def)
  then have d: "\<not> fst (testServiceConnection direct_only_remote
              (host \<lparr>id' = 4, name = ''b'', host = ''h1''\<rparr>) one_named_b)"
    by simp
  have t: "trace one_named_b = []" by (simp add: one_named_b_def)
  show ?thesis
    by (simp add: find_one_named_b d0 t productTimeSeries_down [OF find_one_named_b d] trace_issue)
       (simp add: direct_only_remote_def ts_url_def ts_params_def)
qed

subsection \<open>Loading the services\<close>

lemma unique_name_filter:
  assumes "distinct (map name (ys @ x # rest))"
  shows "filter (\<lambda>z. name z = name x) (ys @ x # rest) = [x]"
proof -
  from assms have "name x \<notin> name ` set ys" and "name x \<notin> name ` set rest" by auto
  then have "filter (\<lambda>z. name z = name x) ys = []" and "filter (\<lambda>z. name z = name x) rest = []"
    by (auto simp: filter_empty_conv image_iff)
  then show ?thesis by simp
qed

lemma remove1_middle:
  assumes "distinct (map name (ys @ x # rest))"
  shows "remove1 x (ys @ x # rest) = ys @ rest"
proof -
  from assms have "name x \<notin> name ` set ys" by auto
  then have "x \<notin> set ys" by auto
  then show ?thesis by (simp add: remove1_append)
qed

lemma length_verdicts: "length (verdicts R t xs) = length xs"
  by (induction xs arbitrary: t) (auto split: sum.splits)

lemma passing_untested: "passing xs (map (\<lambda>x. Untested) xs) = []"
  by (induction xs) auto

lemma remaining_untested: "remaining xs (map (\<lambda>x. Untested) xs) = xs"
  by (induction xs) auto

lemma raised_untested: "raised (map (\<lambda>x. Untested) xs) = None"
  by (induction xs) auto

lemma ran_through:
  "raised (verdicts R t xs) = None \<Longrightarrow>
     (\<forall>v \<in> set (verdicts R t xs). v = Failed \<or> (\<exists>coverages. v = Passed coverages))
     \<and> remaining xs (verdicts R t xs) = map fst (passing xs (verdicts R t xs))"
  by (induction xs arbitrary: t) (auto split: sum.splits)

lemma load_loop_verdicts:
  "storage s = Stored (ys @ rest) \<Longrightarrow> distinct (map name (ys @ rest)) \<Longrightarrow>
     fst (load_loop R rest servers s) = raised (verdicts R (clock s) rest)
     \<and> fst (snd (load_loop R rest servers s))
         = servers @ map listed (passing rest (verdicts R (clock s) rest))
     \<and> storage (snd (snd (load_loop R rest servers s)))
         = Stored (ys @ remaining rest (verdicts R (clock s) rest))"
proof (induction rest arbitrary: ys servers s)
  case Nil
  then show ?case by simp
next
  case (Cons x rest)
  let ?s1 = "issue (ListCoverages (host x)) s"
  show ?case
  proof (cases "wtss_coverages R (clock s) (host x)")
    case (Inl e)
    then have "\<not> fst (testServiceConnection R (host x) s)" by (simp add: test_fst)
    then have t: "testServiceConnection R (host x) s = (False, ?s1)" by (rule test_False)
    have st1: "storage ?s1 = Stored (ys @ x # rest)"
      using Cons.prems(1) by (simp add: storage_issue)
    have fl: "find_loop (name x) (ys @ x # rest) = Some x"
      using unique_name_filter [OF Cons.prems(2)] by (rule find_loop_unique)
    let ?s2 = "?s1\<lparr>storage := Stored (ys @ rest)\<rparr>"
    have d: "deleteService (name x) ?s1 = (Inr (Some x), ?s2)"
      by (simp add: deleteService_Stored [OF st1] fl remove1_middle [OF Cons.prems(2)])
    have st: "storage ?s2 = Stored (ys @ rest)" by simp
    have di: "distinct (map name (ys @ rest))" using Cons.prems(2) by simp
    have c: "clock ?s2 = Suc (clock s)" by (simp add: clock_storage_update clock_issue)
    show ?thesis
      using Cons.IH [OF st di, of servers]
      by (simp add: t d Inl c)
  next
    case (Inr answered)
    then have "fst (testServiceConnection R (host x) s)" by (simp add: test_fst)
    then have t: "testServiceConnection R (host x) s = (True, ?s1)" by (rule test_True)
    let ?s2 = "issue (ListCoverages (host x)) ?s1"
    show ?thesis
    proof (cases "wtss_coverages R (Suc (clock s)) (host x)")
      case (Inl e)
      then have c: "client_coverages R (host x) ?s1 = (Inl e, ?s2)"
        by (simp add: client_coverages_def clock_issue)
      have st: "storage ?s2 = Stored (ys @ x # rest)"
        using Cons.prems(1) by (simp add: storage_issue)
      show ?thesis
        by (simp add: t c Inr Inl st passing_untested remaining_untested)
    next
      case inner: (Inr coverages)
      then have c: "client_coverages R (host x) ?s1 = (Inr coverages, ?s2)"
        by (simp add: client_coverages_def clock_issue)
      have st: "storage ?s2 = Stored ((ys @ [x]) @ rest)"
        using Cons.prems(1) by (simp add: storage_issue)
      have di: "distinct (map name ((ys @ [x]) @ rest))" using Cons.prems(2) by simp
      have ck: "clock ?s2 = Suc (Suc (clock s))" by (simp add: clock_issue)
      show ?thesis
        using Cons.IH [OF st di, of "servers @ [listed (x, coverages)]"]
        by (simp add: t c Inr inner ck listed_def)
    qed
  qed
qed

lemma loadServices_verdicts:
  assumes "storage s = Stored xs" and "distinct (map name xs)"
  shows "loadServices R s =
     ((case raised (verdicts R (clock s) xs) of
         None \<Rightarrow> Inr [Node ''Services'' (map listed (passing xs (verdicts R (clock s) xs)))]
       | Some e \<Rightarrow>
           if file_error e
           then Inr [Node ''Services'' (map listed (passing xs (verdicts R (clock s) xs)))]
           else Inl e),
      snd (snd (load_loop R xs [] s)))
     \<and> storage (snd (snd (load_loop R xs [] s)))
         = Stored (remaining xs (verdicts R (clock s) xs))"
proof -
  obtain e servers s1 where l: "load_loop R xs [] s = (e, servers, s1)"
    by (cases "load_loop R xs [] s") auto
  have "storage s = Stored ([] @ xs)" and "distinct (map name ([] @ xs))"
    using assms by simp_all
  from load_loop_verdicts [OF this, of R "[]"] l
  have "e = raised (verdicts R (clock s) xs)"
    and "servers = map listed (passing xs (verdicts R (clock s) xs))"
    and "storage s1 = Stored (remaining xs (verdicts R (clock s) xs))"
    by simp_all
  then show ?thesis
    using assms(1) l by (simp add: loadServices_def getServices_def split: option.splits)
qed

text \<open>
  Claim C7, as amended. On a stored list whose names differ, for every remote side and
  with each connection test taken at the moment \<open>loadServices\<close> runs it:
  \<open>loadServices\<close> deletes from storage exactly the services whose test failed. After
  it returns, unless it has swallowed a file error raised by a request for coverages,
  every service has failed or passed its test, the storage holds exactly the services
  that passed, in their order, and the tree holds exactly these services with the names
  of their coverages. It does return when no request for the coverages of a service that
  passed raises.
\<close>

theorem loadServices_keeps_passing:
  assumes "storage s = Stored xs" and "distinct (map name xs)"
  shows "storage (snd (loadServices R s)) = Stored (remaining xs (verdicts R (clock s) xs))
       \<and> (\<forall>T. fst (loadServices R s) = Inr T
              \<and> (\<forall>e. raised (verdicts R (clock s) xs) = Some e \<longrightarrow> \<not> file_error e) \<longrightarrow>
            T = [Node ''Services'' (map listed (passing xs (verdicts R (clock s) xs)))]
          \<and> storage (snd (loadServices R s))
              = Stored (map fst (passing xs (verdicts R (clock s) xs)))
          \<and> length (verdicts R (clock s) xs) = length xs
          \<and> (\<forall>v \<in> set (verdicts R (clock s) xs).
                v = Failed \<or> (\<exists>coverages. v = Passed coverages)))
       \<and> (raised (verdicts R (clock s) xs) = None \<longrightarrow>
            fst (loadServices R s)
              = Inr [Node ''Services'' (map listed (passing xs (verdicts R (clock s) xs)))])"
proof -
  note l = loadServices_verdicts [OF assms, of R]
  have 1: "storage (snd (loadServices R s)) = Stored (remaining xs (verdicts R (clock s) xs))"
    using l by simp
  have 3: "raised (verdicts R (clock s) xs) = None \<longrightarrow>
            fst (loadServices R s)
              = Inr [Node ''Services'' (map listed (passing xs (verdicts R (clock s) xs)))]"
    using l by simp
  have 2: "\<forall>T. fst (loadServices R s) = Inr T
              \<and> (\<forall>e. raised (verdicts R (clock s) xs) = Some e \<longrightarrow> \<not> file_error e) \<longrightarrow>
            T = [Node ''Services'' (map listed (passing xs (verdicts R (clock s) xs)))]
          \<and> storage (snd (loadServices R s))
              = Stored (map fst (passing xs (verdicts R (clock s) xs)))
          \<and> length (verdicts R (clock s) xs) = length xs
          \<and> (\<forall>v \<in> set (verdicts R (clock s) xs).
                v = Failed \<or> (\<exists>coverages. v = Passed coverages))"
  proof (intro allI impI)
    fix T
    assume a: "fst (loadServices R s) = Inr T
              \<and> (\<forall>e. raised (verdicts R (clock s) xs) = Some e \<longrightarrow> \<not> file_error e)"
    have n: "raised (verdicts R (clock s) xs) = None"
    proof (cases "raised (verdicts R (clock s) xs)")
      case None
      then show ?thesis .
    next
      case (Some e)
      with a have "\<not> file_error e" by simp
      with Some l have "fst (loadServices R s) = Inl e" by simp
      with a show ?thesis by simp
    qed
    from 3 n have "fst (loadServices R s)
              = Inr [Node ''Services'' (map listed (passing xs (verdicts R (clock s) xs)))]"
      by blast
    with a have c1: "T = [Node ''Services'' (map listed (passing xs (verdicts R (clock s) xs)))]"
      by simp
    from ran_through [OF n]
    have c4: "\<forall>v \<in> set (verdicts R (clock s) xs).
                v = Failed \<or> (\<exists>coverages. v = Passed coverages)"
      and r: "remaining xs (verdicts R (clock s) xs)
                = map fst (passing xs (verdicts R (clock s) xs))"
      by blast+
    from 1 r have c2: "storage (snd (loadServices R s))
              = Stored (map fst (passing xs (verdicts R (clock s) xs)))"
      by simp
    have c3: "length (verdicts R (clock s) xs) = length xs"
      by (rule length_verdicts)
    from c1 c2 c3 c4
    show "T = [Node ''Services'' (map listed (passing xs (verdicts R (clock s) xs)))]
          \<and> storage (snd (loadServices R s))
              = Stored (map fst (passing xs (verdicts R (clock s) xs)))
          \<and> length (verdicts R (clock s) xs) = length xs
          \<and> (\<forall>v \<in> set (verdicts R (clock s) xs).
                v = Failed \<or> (\<exists>coverages. v = Passed coverages))"
      by blast
  qed
  from 1 2 3 show ?thesis by blast
qed

theorem loadServices_keeps_passing_witness:
  "storage \<lparr>storage = Stored bad_and_good, trace = []\<rparr> = Stored bad_and_good
   \<and> distinct (map name bad_and_good)
   \<and> verdicts good_host_remote 0 bad_and_good = [Failed, Passed [''c1'']]
   \<and> raised (verdicts good_host_remote 0 bad_and_good) = None
   \<and> length (verdicts good_host_remote 0 bad_and_good) = length bad_and_good
   \<and> fst (loadServices good_host_remote \<lparr>storage = Stored bad_and_good, trace = []\<rparr>)
       = Inr [Node ''Services'' [Node ''b'' [Node ''c1'' []]]]
   \<and> storage (snd (loadServices good_host_remote \<lparr>storage = Stored bad_and_good, trace = []\<rparr>))
       = Stored [\<lparr>id' = 1, name = ''b'', host = ''good''\<rparr>]"
proof -
  have st: "storage \<lparr>storage = Stored bad_and_good, trace = []\<rparr> = Stored bad_and_good"
    by simp
  have di: "distinct (map name bad_and_good)"
    by (simp add: bad_and_good_def)
  have c: "clock \<lparr>storage = Stored bad_and_good, trace = []\<rparr> = 0"
    by (simp add: clock_def)
  have v: "verdicts good_host_remote 0 bad_and_good = [Failed, Passed [''c1'']]"
    by (simp add: bad_and_good_def good_host_remote_def)
  have p: "passing bad_and_good [Failed, Passed [''c1'']]
             = [(\<lparr>id' = 1, name = ''b'', host = ''good''\<rparr>, [''c1''])]"
    by (simp add: bad_and_good_def)
  have rm: "remaining bad_and_good [Failed, Passed [''c1'']]
             = [\<lparr>id' = 1, name = ''b'', host = ''good''\<rparr>]"
    by (simp add: bad_and_good_def)
  have len: "length bad_and_good = 2"
    by (simp add: bad_and_good_def)
  have n: "raised (verdicts good_host_remote 0 bad_and_good) = None"
    by (simp add: v)
  note th = loadServices_keeps_passing [OF st di, of good_host_remote, unfolded c]
  from th have "storage (snd (loadServices good_host_remote
                   \<lparr>storage = Stored bad_and_good, trace = []\<rparr>))
                 = Stored (remaining bad_and_good (verdicts good_host_remote 0 bad_and_good))"
    by (rule conjunct1)
  then have s1: "storage (snd (loadServices good_host_remote
                   \<lparr>storage = Stored bad_and_good, trace = []\<rparr>))
                 = Stored [\<lparr>id' = 1, name = ''b'', host = ''good''\<rparr>]"
    by (simp only: v rm)
  from th [THEN conjunct2, THEN conjunct2] n
  have "fst (loadServices good_host_remote \<lparr>storage = Stored bad_and_good, trace = []\<rparr>)
           = Inr [Node ''Services''
                   (map listed (passing bad_and_good (verdicts good_host_remote 0 bad_and_good)))]"
    by (rule mp)
  then have s2: "fst (loadServices good_host_remote \<lparr>storage = Stored bad_and_good, trace = []\<rparr>)
           = Inr [Node ''Services'' [Node ''b'' [Node ''c1'' []]]]"
    by (simp add: v p listed_def)
  have nf: "\<forall>e. raised (verdicts good_host_remote 0 bad_and_good) = Some e \<longrightarrow> \<not> file_error e"
    by (simp add: n)
  from th s2 nf
  have "length (verdicts good_host_remote 0 bad_and_good) = length bad_and_good"
    by blast
  with st di v n s1 s2 show ?thesis by blast
qed

text \<open>
  The exception made for a swallowed file error is needed: when the request for the
  coverages of the first service raises \<^verbatim>\<open>FileNotFoundError\<close>, the handler of
  \<^verbatim>\<open>loadServices\<close> returns the empty tree, and both services stay in storage, the
  second one untested.
\<close>

lemma loadServices_swallows_file_error:
  "verdicts missing_file_remote 0 bad_and_good = [Raised FileNotFoundError, Untested]
   \<and> fst (loadServices missing_file_remote \<lparr>storage = Stored bad_and_good, trace = []\<rparr>)
       = Inr [Node ''Services'' []]
   \<and> storage (snd (loadServices missing_file_remote \<lparr>storage = Stored bad_and_good, trace = []\<rparr>))
       = Stored bad_and_good"
proof -
  have st: "storage \<lparr>storage = Stored bad_and_good, trace = []\<rparr> = Stored bad_and_good"
    by simp
  have di: "distinct (map name bad_and_good)"
    by (simp add: bad_and_good_def)
  have c: "clock \<lparr>storage = Stored bad_and_good, trace = []\<rparr> = 0"
    by (simp add: clock_def)
  have v: "verdicts missing_file_remote 0 bad_and_good = [Raised FileNotFoundError, Untested]"
    by (simp add: bad_and_good_def missing_file_remote_def)
  have p: "passing bad_and_good [Raised FileNotFoundError, Untested] = []"
    "remaining bad_and_good [Raised FileNotFoundError, Untested] = bad_and_good"
    by (simp_all add: bad_and_good_def)
  show ?thesis
    using loadServices_verdicts [OF st di, of missing_file_remote]
    by (simp add: c v p file_error_def)
qed

text \<open>
  The claim as stated fails on a stored list in which two services share a name: the
  deletion by name removes the service on the host that answers, and the one on the host
  that fails stays in storage.
\<close>

theorem loadServices_duplicate_name_counterexample:
  "\<not> fst (testServiceConnection good_host_remote ''bad''
          \<lparr>storage = Stored bad_then_good, trace = []\<rparr>)
   \<and> fst (loadServices good_host_remote \<lparr>storage = Stored bad_then_good, trace = []\<rparr>)
       = Inr [Node ''Services'' [Node ''a'' [Node ''c1'' []]]]
   \<and> storage (snd (loadServices good_host_remote \<lparr>storage = Stored bad_then_good, trace = []\<rparr>))
       = Stored [\<lparr>id' = 0, name = ''a'', host = ''bad''\<rparr>]
   \<and> \<not> fst (testServiceConnection good_host_remote ''bad''
            (snd (loadServices good_host_remote \<lparr>storage = Stored bad_then_good, trace = []\<rparr>)))"
proof -
  let ?s = "\<lparr>storage = Stored bad_then_good, trace = []\<rparr>"
  let ?x0 = "\<lparr>id' = 0, name = ''a'', host = ''bad''\<rparr>"
  let ?x1 = "\<lparr>id' = 1, name = ''a'', host = ''good''\<rparr>"
  let ?s1 = "issue (ListCoverages ''bad'') ?s"
  let ?s2 = "?s1\<lparr>storage := Stored [?x0]\<rparr>"
  let ?s3 = "issue (ListCoverages ''good'') ?s2"
  let ?s4 = "issue (ListCoverages ''good'') ?s3"
  have bad: "\<And>s. \<not> fst (testServiceConnection good_host_remote ''bad'' s)"
    by (simp add: test_fst good_host_remote_def)
  have good: "\<And>s. fst (testServiceConnection good_host_remote ''good'' s)"
    by (simp add: test_fst good_host_remote_def)
  have t0: "testServiceConnection good_host_remote ''bad'' ?s = (False, ?s1)"
    by (rule test_False [OF bad])
  have st1: "storage ?s1 = Stored [?x0, ?x1]"
    by (simp add: storage_issue bad_then_good_def)
  have d: "deleteService ''a'' ?s1 = (Inr (Some ?x1), ?s2)"
    by (simp add: deleteService_Stored [OF st1] find_loop_def)
  have t1: "testServiceConnection good_host_remote ''good'' ?s2 = (True, ?s3)"
    by (rule test_True [OF good])
  have c: "client_coverages good_host_remote ''good'' ?s3 = (Inr [''c1''], ?s4)"
    by (simp add: client_coverages_def good_host_remote_def)
  have l: "load_loop good_host_remote [?x0, ?x1] [] ?s = (None, [Node ''a'' [Node ''c1'' []]], ?s4)"
    by (simp add: t0 d t1 c)
  have g: "getServices ?s = Inr [?x0, ?x1]"
    by (simp add: getServices_def bad_then_good_def)
  have r: "loadServices good_host_remote ?s = (Inr [Node ''Services'' [Node ''a'' [Node ''c1'' []]]], ?s4)"
    by (simp only: loadServices_def g l sum.case prod.case option.case)
  show ?thesis
    by (simp only: r fst_conv snd_conv) (simp add: bad storage_issue)
qed

end
